theory Spec2Isabelle
  imports Complex_Main
begin

section \<open>Conventions of the embedding\<close>

text \<open>
  JavaScript numbers are modelled exactly: counters, timestamps and lengths as \<open>int\<close>
  or \<open>nat\<close> (the code only adds and subtracts small integers on them), landmark
  coordinates as \<open>real\<close>, a coordinate that is \<open>undefined\<close> as \<open>None\<close>. The classifier
  is evaluated below only on hands whose coordinates are all 0, where the double-precision
  arithmetic of the code is exact. Strings are lists of ASCII code units. \<open>Date.now()\<close> is an
  argument of every function that reads the clock. A \<open>TypeError\<close> raised by reading a
  property of \<open>undefined\<close>, or by calling something that is not a function, is the
  value \<open>Inl TypeError\<close>.
\<close>

datatype error = TypeError

definition nth_opt :: "'a list \<Rightarrow> nat \<Rightarrow> 'a option" where
  "nth_opt xs i = (if i < length xs then Some (xs ! i) else None)"

section \<open>Sign language detector (signLanguageDetector.js)\<close>

subsection \<open>State of the detector object\<close>

text \<open>
  The fields of \<open>SignLanguageDetector\<close> that the modelled methods read or write.
  \<open>hasDetector\<close> stands for \<open>this.detector\<close> being non-null. \<open>gestureConfidence\<close> is
  the \<open>Map\<close> from gesture names to counters. \<open>useMLHybrid\<close> is \<open>false\<close> in the
  constructor and is never set to \<open>true\<close>, so the ML branch of \<open>classifyGesture\<close> is
  dead and is left out.
\<close>

record detector =
  hasDetector :: bool
  isInitialized :: bool
  gestureBuffer :: "string list"
  bufferSize :: nat
  gestureConfidence :: "string \<rightharpoonup> int"
  minConfidenceFrames :: int
  lastGesture :: string
  lastGestureTimestamp :: int
  gestureDebounceTime :: int

definition constructor_detector :: detector where
  "constructor_detector =
     \<lparr> hasDetector = False,
       isInitialized = False,
       gestureBuffer = [],
       bufferSize = 10,
       gestureConfidence = Map.empty,
       minConfidenceFrames = 2,
       lastGesture = ''none'',
       lastGestureTimestamp = 0,
       gestureDebounceTime = 100 \<rparr>"

text \<open>The state after a successful \<open>initialize()\<close>.\<close>

definition initialized_detector :: detector where
  "initialized_detector = constructor_detector\<lparr>hasDetector := True, isInitialized := True\<rparr>"

subsection \<open>smoothGesture\<close>

definition fistLikeGestures :: "string list" where
  "fistLikeGestures = [''N'', ''M'', ''C'', ''E'', ''A'', ''S'', ''T'', ''O'']"

definition fingerGestures :: "string list" where
  "fingerGestures =
     [''F'', ''K'', ''P'', ''Q'', ''R'', ''U'', ''V'', ''W'', ''X'', ''H'', ''B'', ''G'']"

definition thumbOverlapGestures :: "string list" where
  "thumbOverlapGestures = [''N'', ''M'', ''P'', ''K'']"

definition isSimilarSwitch :: "string \<Rightarrow> string \<Rightarrow> bool" where
  "isSimilarSwitch detectedGesture lastG =
     (let bothFistLike =
            (detectedGesture \<in> set fistLikeGestures \<and> lastG \<in> set fistLikeGestures);
          bothFingerGestures =
            (detectedGesture \<in> set fingerGestures \<and> lastG \<in> set fingerGestures);
          bothThumbOverlap =
            (detectedGesture \<in> set thumbOverlapGestures \<and> lastG \<in> set thumbOverlapGestures)
      in bothFistLike \<or> bothFingerGestures \<or> bothThumbOverlap)"

text \<open>
  \<open>Map.get\<close>; at its one call site the key has been inserted before, so the \<open>None\<close>
  branch (\<open>undefined\<close>) is never taken there.
\<close>

definition map_get :: "(string \<rightharpoonup> int) \<Rightarrow> string \<Rightarrow> int" where
  "map_get m g = (case m g of Some c \<Rightarrow> c | None \<Rightarrow> 0)"

text \<open>The loop over \<open>gestureConfidence.entries()\<close>: every other positive counter decays by 2.\<close>

definition decay_others :: "string \<Rightarrow> (string \<rightharpoonup> int) \<Rightarrow> (string \<rightharpoonup> int)" where
  "decay_others detectedGesture m =
     (\<lambda>gesture. case m gesture of
          None \<Rightarrow> None
        | Some confidence \<Rightarrow>
            if gesture \<noteq> detectedGesture \<and> confidence > 0
            then Some (max 0 (confidence - 2))
            else Some confidence)"

text \<open>
  The result \<open>null\<close> is \<open>None\<close>. Note that \<open>currentConfidence\<close> is read before the
  counter is incremented and is the value compared with \<open>minConfidenceFrames\<close>.
\<close>

definition smoothGesture :: "int \<Rightarrow> string \<Rightarrow> detector \<Rightarrow> string option \<times> detector" where
  "smoothGesture currentTime detectedGesture s =
     (let m0 = (if gestureConfidence s detectedGesture = None
                then (gestureConfidence s)(detectedGesture \<mapsto> 0)
                else gestureConfidence s);
          m1 = (if lastGesture s \<noteq> detectedGesture
                   \<and> isSimilarSwitch detectedGesture (lastGesture s)
                then m0(lastGesture s \<mapsto> 0)
                else m0);
          currentConfidence = map_get m1 detectedGesture;
          m2 = m1(detectedGesture \<mapsto> currentConfidence + 1);
          m3 = decay_others detectedGesture m2;
          s1 = s\<lparr>gestureConfidence := m3\<rparr>
      in if currentConfidence \<ge> minConfidenceFrames s then
           (if detectedGesture \<noteq> lastGesture s then
              (let timeSinceLastChange = currentTime - lastGestureTimestamp s
               in if \<not> isSimilarSwitch detectedGesture (lastGesture s)
                     \<and> timeSinceLastChange < gestureDebounceTime s
                  then (Some (lastGesture s), s1)
                  else (Some detectedGesture,
                        s1\<lparr>lastGesture := detectedGesture,
                           lastGestureTimestamp := currentTime\<rparr>))
            else (Some detectedGesture, s1))
         else if detectedGesture \<noteq> lastGesture s then (None, s1)
         else (Some (lastGesture s), s1))"

text \<open>Consecutive ticks \<open>(time, raw gesture)\<close>; the outputs are listed in tick order.\<close>

fun feed :: "(int \<times> string) list \<Rightarrow> detector \<Rightarrow> string option list \<times> detector" where
  "feed [] s = ([], s)"
| "feed ((t, g) # ticks) s =
     (let (out, s') = smoothGesture t g s;
          (outs, s'') = feed ticks s'
      in (out # outs, s''))"

subsection \<open>Landmarks and finger extension\<close>

text \<open>
  A hand as delivered by the pose estimator: \<open>keypoints\<close> (2D, with an optional score)
  and \<open>keypoints3D\<close>; either array may be missing (\<open>None\<close>).
\<close>

record point2D =
  p2_x :: real
  p2_y :: real
  p2_score :: "real option"
  p2_name :: string

record point3D =
  p3_x :: real
  p3_y :: real
  p3_z :: real
  p3_name :: string

record hand =
  keypoints :: "point2D list option"
  keypoints3D :: "point3D list option"

text \<open>
  The objects of the local array \<open>keypoints\<close> of \<open>classifyGesture\<close>: the converted 3D
  points carry \<open>z\<close>, \<open>xPixel\<close> and \<open>yPixel\<close>; the 2D fallback objects do not.
\<close>

record keypoint =
  kp_x :: real
  kp_y :: real
  kp_z :: "real option"
  kp_name :: string
  xPixel :: "real option"
  yPixel :: "real option"

record pixelKeypoint =
  px :: real
  py :: real
  pz :: "real option"
  pname :: string

text \<open>\<open>minZ\<close> and \<open>maxZ\<close> start at \<open>Infinity\<close> and \<open>-Infinity\<close>, here \<open>None\<close>.\<close>

definition minZ_of :: "point3D list \<Rightarrow> real option" where
  "minZ_of points =
     fold (\<lambda>point minZ. case minZ of
                None \<Rightarrow> Some (p3_z point)
              | Some m \<Rightarrow> if p3_z point < m then Some (p3_z point) else Some m)
          points None"

definition maxZ_of :: "point3D list \<Rightarrow> real option" where
  "maxZ_of points =
     fold (\<lambda>point maxZ. case maxZ of
                None \<Rightarrow> Some (p3_z point)
              | Some m \<Rightarrow> if p3_z point > m then Some (p3_z point) else Some m)
          points None"

definition convert3D :: "real \<Rightarrow> real \<Rightarrow> point3D \<Rightarrow> keypoint" where
  "convert3D minZ zRange point =
     \<lparr> kp_x = p3_x point + 0.5,
       kp_y = 1.0 - (p3_y point + 0.5),
       kp_z = Some ((p3_z point - minZ) / zRange),
       kp_name = p3_name point,
       xPixel = Some ((p3_x point + 0.5) * 640),
       yPixel = Some ((0.5 - p3_y point) * 480) \<rparr>"

definition from2D :: "point2D \<Rightarrow> keypoint" where
  "from2D point =
     \<lparr> kp_x = p2_x point, kp_y = p2_y point, kp_z = None, kp_name = p2_name point,
       xPixel = None, yPixel = None \<rparr>"

text \<open>\<open>a || b\<close> on an optional number: \<open>undefined\<close> and \<open>0\<close> are falsy.\<close>

definition js_or :: "real option \<Rightarrow> real \<Rightarrow> real" where
  "js_or a b = (case a of Some v \<Rightarrow> if v \<noteq> 0 then v else b | None \<Rightarrow> b)"

definition toPixel :: "keypoint \<Rightarrow> pixelKeypoint" where
  "toPixel kp =
     \<lparr> px = js_or (xPixel kp) (kp_x kp),
       py = js_or (yPixel kp) (kp_y kp),
       pz = kp_z kp,
       pname = kp_name kp \<rparr>"

datatype finger = thumb | index | middle | ring | pinky

fun fingerTips :: "finger \<Rightarrow> nat" where
  "fingerTips thumb = 4"
| "fingerTips index = 8"
| "fingerTips middle = 12"
| "fingerTips ring = 16"
| "fingerTips pinky = 20"

fun fingerBase :: "finger \<Rightarrow> nat" where
  "fingerBase thumb = 2"
| "fingerBase index = 5"
| "fingerBase middle = 9"
| "fingerBase ring = 13"
| "fingerBase pinky = 17"

definition isFingerExtended :: "pixelKeypoint list \<Rightarrow> finger \<Rightarrow> bool" where
  "isFingerExtended kps fingerName =
     (case (nth_opt kps (fingerTips fingerName), nth_opt kps (fingerBase fingerName)) of
        (Some tip, Some base) \<Rightarrow>
          (let distance = sqrt ((px tip - px base)\<^sup>2 + (py tip - py base)\<^sup>2)
           in if fingerName = thumb then distance > 25 else distance > 30)
      | _ \<Rightarrow> False)"

subsection \<open>The shape helpers\<close>

text \<open>
  Every helper takes \<open>keypoints[i]\<close> for fixed indices and reads \<open>.x\<close>, \<open>.y\<close> or
  \<open>.z\<close> of it without a guard; for an index outside the array the element is
  \<open>undefined\<close> and the read raises a \<open>TypeError\<close>. A helper that reads the elements
  at indices \<open>i, j, ...\<close> is modelled by a case distinction on \<open>nth_opt kps i\<close>,
  \<open>nth_opt kps j\<close>, ...; elements that the code only assigns to a constant and never
  reads (\<open>thumbBase\<close> in \<open>isThumbToSide\<close> and \<open>isGShape\<close>, \<open>ringTip\<close> in
  \<open>isNShape\<close>) are left out. The calls of \<open>toFixed\<close> in the log statements are on
  numbers and cannot raise, except in \<open>isNShape\<close>, where they are on \<open>.z\<close> itself.
  The helpers \<open>calculateAngle\<close>, \<open>getFingerCurlAngle\<close>, \<open>getFingerElevationAngle\<close>,
  \<open>getVectorAngle\<close>, \<open>isPointingDirection\<close> and \<open>isOKShape\<close> are never called.
\<close>

text \<open>The expression \<open>Math.sqrt(Math.pow(p.x - q.x, 2) + Math.pow(p.y - q.y, 2))\<close>.\<close>

definition distance2D :: "pixelKeypoint \<Rightarrow> pixelKeypoint \<Rightarrow> real" where
  "distance2D p q = sqrt ((px p - px q)\<^sup>2 + (py p - py q)\<^sup>2)"

text \<open>\<open>Math.atan2(y, x)\<close> on real numbers, and \<open>getDirectionAngle\<close> in degrees.\<close>

definition js_atan2 :: "real \<Rightarrow> real \<Rightarrow> real" where
  "js_atan2 y x =
     (if x > 0 then arctan (y / x)
      else if x < 0 then (if y \<ge> 0 then arctan (y / x) + pi else arctan (y / x) - pi)
      else if y > 0 then pi / 2
      else if y < 0 then - (pi / 2)
      else 0)"

definition getDirectionAngle :: "pixelKeypoint \<Rightarrow> pixelKeypoint \<Rightarrow> real" where
  "getDirectionAngle p1 p2 = js_atan2 (py p2 - py p1) (px p2 - px p1) * (180 / pi)"

definition isThumbAcrossPalm :: "pixelKeypoint list \<Rightarrow> error + bool" where
  "isThumbAcrossPalm kps =
     (case (nth_opt kps 4, nth_opt kps 0, nth_opt kps 5, nth_opt kps 9) of
        (Some thumbTip, Some palmBase, Some indexBase, Some middleBase) \<Rightarrow>
          (let xDistance = \<bar>px thumbTip - px palmBase\<bar>;
               yPosition = py thumbTip;
               avgFingerBaseY = (py indexBase + py middleBase) / 2
           in Inr (xDistance < 50 \<and> \<bar>yPosition - avgFingerBaseY\<bar> < 40))
      | _ \<Rightarrow> Inl TypeError)"

definition isThumbToSide :: "pixelKeypoint list \<Rightarrow> error + bool" where
  "isThumbToSide kps =
     (case (nth_opt kps 4, nth_opt kps 5, nth_opt kps 0) of
        (Some thumbTip, Some indexBase, Some palmBase) \<Rightarrow>
          (let xDiff = \<bar>px thumbTip - px indexBase\<bar>;
               thumbExtension = \<bar>px thumbTip - px palmBase\<bar>
           in Inr (xDiff > 40 \<and> thumbExtension > 35))
      | _ \<Rightarrow> Inl TypeError)"

definition isDShape :: "pixelKeypoint list \<Rightarrow> error + bool" where
  "isDShape kps =
     (case (nth_opt kps 4, nth_opt kps 12, nth_opt kps 16, nth_opt kps 20) of
        (Some thumbTip, Some middleTip, Some ringTip, Some pinkyTip) \<Rightarrow>
          (let thumbToMiddle = distance2D thumbTip middleTip;
               thumbToRing = distance2D thumbTip ringTip;
               thumbToPinky = distance2D thumbTip pinkyTip;
               middleToRing = distance2D middleTip ringTip;
               ringToPinky = distance2D ringTip pinkyTip;
               fingersBunched = (middleToRing < 25 \<and> ringToPinky < 25);
               thumbTouchingClosedFingers =
                 (thumbToMiddle < 35 \<or> thumbToRing < 35 \<or> thumbToPinky < 35)
           in Inr (fingersBunched \<and> thumbTouchingClosedFingers))
      | _ \<Rightarrow> Inl TypeError)"

definition isThumbTouchingFingers :: "pixelKeypoint list \<Rightarrow> error + bool" where
  "isThumbTouchingFingers kps =
     (case (nth_opt kps 4, nth_opt kps 12) of
        (Some thumbTip, Some middleTip) \<Rightarrow> Inr (distance2D thumbTip middleTip < 30)
      | _ \<Rightarrow> Inl TypeError)"

text \<open>
  \<open>thumbTip.z && indexMCP.z ? thumbTip.z - indexMCP.z : 0\<close>: a \<open>z\<close> that is
  \<open>undefined\<close> or \<open>0\<close> is falsy.
\<close>

definition isThumbInFront :: "pixelKeypoint list \<Rightarrow> error + bool" where
  "isThumbInFront kps =
     (case (nth_opt kps 4, nth_opt kps 5, nth_opt kps 0) of
        (Some thumbTip, Some indexMCP, Some palmBase) \<Rightarrow>
          (let zDiff = (case (pz thumbTip, pz indexMCP) of
                          (Some a, Some b) \<Rightarrow> if a \<noteq> 0 \<and> b \<noteq> 0 then a - b else 0
                        | _ \<Rightarrow> 0);
               xDiff = \<bar>px thumbTip - px palmBase\<bar>
           in Inr (zDiff > 0.01 \<and> xDiff < 60))
      | _ \<Rightarrow> Inl TypeError)"

definition isCShape :: "pixelKeypoint list \<Rightarrow> error + bool" where
  "isCShape kps =
     (case (nth_opt kps 8, nth_opt kps 12, nth_opt kps 16, nth_opt kps 20,
            nth_opt kps 5, nth_opt kps 9, nth_opt kps 13, nth_opt kps 17, nth_opt kps 4) of
        (Some tip0, Some tip1, Some tip2, Some tip3,
         Some base0, Some base1, Some base2, Some base3, Some thumbTip) \<Rightarrow>
          (let avgDistance =
                 (distance2D tip0 base0 + distance2D tip1 base1
                    + distance2D tip2 base2 + distance2D tip3 base3) / 4;
               avgDistToThumb =
                 (distance2D tip0 thumbTip + distance2D tip1 thumbTip
                    + distance2D tip2 thumbTip + distance2D tip3 thumbTip) / 4;
               isCurved = (avgDistance > 25 \<and> avgDistance < 45);
               fingersAway = (avgDistToThumb > 40)
           in Inr (isCurved \<and> fingersAway))
      | _ \<Rightarrow> Inl TypeError)"

definition isFShape :: "pixelKeypoint list \<Rightarrow> error + bool" where
  "isFShape kps =
     (case (nth_opt kps 4, nth_opt kps 8, nth_opt kps 7, nth_opt kps 6, nth_opt kps 5,
            nth_opt kps 12, nth_opt kps 16, nth_opt kps 20, nth_opt kps 0) of
        (Some thumbTip, Some indexTip, Some indexDIP, Some indexPIP, Some indexMCP,
         Some middleTip, Some ringTip, Some pinkyTip, Some palmBase) \<Rightarrow>
          (let minDistance =
                 min (distance2D thumbTip indexTip)
                   (min (distance2D thumbTip indexDIP)
                      (min (distance2D thumbTip indexPIP) (distance2D thumbTip indexMCP)));
               thumbTouchesIndex = (minDistance < 30);
               middleDist = distance2D middleTip palmBase;
               ringDist = distance2D ringTip palmBase;
               pinkyDist = distance2D pinkyTip palmBase;
               avgExtension = (middleDist + ringDist + pinkyDist) / 3;
               fingersExtended = (avgExtension > 75)
           in Inr (thumbTouchesIndex \<and> fingersExtended))
      | _ \<Rightarrow> Inl TypeError)"

definition isOShape :: "pixelKeypoint list \<Rightarrow> error + bool" where
  "isOShape kps =
     (case (nth_opt kps 4, nth_opt kps 8) of
        (Some thumbTip, Some indexTip) \<Rightarrow> Inr (distance2D thumbTip indexTip < 35)
      | _ \<Rightarrow> Inl TypeError)"

definition isGShape :: "pixelKeypoint list \<Rightarrow> bool \<Rightarrow> bool \<Rightarrow> error + bool" where
  "isGShape kps indexExt thumbExt =
     (if \<not> indexExt \<or> \<not> thumbExt then Inr False
      else
        (case (nth_opt kps 8, nth_opt kps 5, nth_opt kps 4) of
           (Some indexTip, Some indexBase, Some thumbTip) \<Rightarrow>
             (let indexAngle = getDirectionAngle indexBase indexTip;
                  indexHorizontal = (\<bar>indexAngle\<bar> < 30 \<or> \<bar>\<bar>indexAngle\<bar> - 180\<bar> < 30);
                  yDiff = \<bar>py indexTip - py thumbTip\<bar>;
                  parallel = (yDiff < 50)
              in Inr (parallel \<and> indexHorizontal))
         | _ \<Rightarrow> Inl TypeError))"

definition areFingersTogether :: "pixelKeypoint list \<Rightarrow> nat \<Rightarrow> nat \<Rightarrow> error + bool" where
  "areFingersTogether kps finger1Tip finger2Tip =
     (case (nth_opt kps finger1Tip, nth_opt kps finger2Tip) of
        (Some tip1, Some tip2) \<Rightarrow> Inr (distance2D tip1 tip2 < 20)
      | _ \<Rightarrow> Inl TypeError)"

definition isHShape :: "pixelKeypoint list \<Rightarrow> error + bool" where
  "isHShape kps = areFingersTogether kps 8 12"

definition isKShape :: "pixelKeypoint list \<Rightarrow> error + bool" where
  "isKShape kps =
     (case (nth_opt kps 8, nth_opt kps 5, nth_opt kps 12, nth_opt kps 9) of
        (Some indexTip, Some indexBase, Some middleTip, Some middleBase) \<Rightarrow>
          (let indexMiddleDist = \<bar>px indexTip - px middleTip\<bar>;
               isValid = (indexMiddleDist > 10 \<and> indexMiddleDist < 50);
               indexAngle = getDirectionAngle indexBase indexTip;
               middleAngle = getDirectionAngle middleBase middleTip;
               indexPointingUp =
                 ((indexAngle < - 10 \<and> indexAngle > - 135)
                  \<or> (indexAngle > 10 \<and> indexAngle < 45));
               middlePointingUp =
                 ((middleAngle < - 10 \<and> middleAngle > - 135)
                  \<or> (middleAngle > 10 \<and> middleAngle < 45));
               pointingUp = (indexPointingUp \<and> middlePointingUp)
           in Inr (isValid \<and> pointingUp))
      | _ \<Rightarrow> Inl TypeError)"

definition isLShape :: "pixelKeypoint list \<Rightarrow> error + bool" where
  "isLShape kps =
     (case (nth_opt kps 8, nth_opt kps 4, nth_opt kps 0) of
        (Some indexTip, Some thumbTip, Some wrist) \<Rightarrow>
          (let indexVertical = (\<bar>py indexTip - py wrist\<bar> > 60);
               thumbHorizontal = (\<bar>px thumbTip - px wrist\<bar> > 40)
           in Inr (indexVertical \<and> thumbHorizontal))
      | _ \<Rightarrow> Inl TypeError)"

definition isPShape :: "pixelKeypoint list \<Rightarrow> error + bool" where
  "isPShape kps =
     (case (nth_opt kps 8, nth_opt kps 5, nth_opt kps 12, nth_opt kps 9, nth_opt kps 0) of
        (Some indexTip, Some indexBase, Some middleTip, Some middleBase, Some wrist) \<Rightarrow>
          (let indexAngle = getDirectionAngle indexBase indexTip;
               middleAngle = getDirectionAngle middleBase middleTip;
               indexPointingDown = (indexAngle > 45 \<and> indexAngle < 135);
               middlePointingDown = (middleAngle > 45 \<and> middleAngle < 135);
               bothDown = (indexPointingDown \<and> middlePointingDown);
               belowWrist = (py indexTip > py wrist \<and> py middleTip > py wrist)
           in Inr (bothDown \<and> belowWrist))
      | _ \<Rightarrow> Inl TypeError)"

definition isQShape :: "pixelKeypoint list \<Rightarrow> error + bool" where
  "isQShape kps =
     (case (nth_opt kps 8, nth_opt kps 5, nth_opt kps 4, nth_opt kps 2, nth_opt kps 0) of
        (Some indexTip, Some indexBase, Some thumbTip, Some thumbBase, Some wrist) \<Rightarrow>
          (let indexAngle = getDirectionAngle indexBase indexTip;
               thumbAngle = getDirectionAngle thumbBase thumbTip;
               indexPointingDown = (indexAngle > 45 \<and> indexAngle < 135);
               thumbPointingDown = (thumbAngle > 30 \<and> thumbAngle < 150);
               bothDown = (indexPointingDown \<and> thumbPointingDown);
               belowWrist = (py indexTip > py wrist \<and> py thumbTip > py wrist)
           in Inr (bothDown \<and> belowWrist))
      | _ \<Rightarrow> Inl TypeError)"

definition isRShape :: "pixelKeypoint list \<Rightarrow> bool \<Rightarrow> bool \<Rightarrow> error + bool" where
  "isRShape kps indexExt middleExt =
     (if \<not> indexExt \<or> \<not> middleExt then Inr False
      else
        (case (nth_opt kps 8, nth_opt kps 12) of
           (Some indexTip, Some middleTip) \<Rightarrow>
             (let xDiff = \<bar>px indexTip - px middleTip\<bar> in Inr (xDiff < 15))
         | _ \<Rightarrow> Inl TypeError))"

definition isTShape :: "pixelKeypoint list \<Rightarrow> error + bool" where
  "isTShape kps =
     (case (nth_opt kps 4, nth_opt kps 5, nth_opt kps 9) of
        (Some thumbTip, Some indexBase, Some middleBase) \<Rightarrow>
          (let thumbBetween =
                 (px thumbTip > min (px indexBase) (px middleBase)
                  \<and> px thumbTip < max (px indexBase) (px middleBase))
           in Inr thumbBetween)
      | _ \<Rightarrow> Inl TypeError)"

text \<open>
  In \<open>isEShape\<close> a fingertip counts as behind the thumb when
  \<open>tip.z && thumbTip.z && tip.z > thumbTip.z + 0.005\<close>; \<open>isThumbAcrossPalm\<close> is called
  before the fingertips are read.
\<close>

definition tipBehind :: "pixelKeypoint \<Rightarrow> pixelKeypoint \<Rightarrow> bool" where
  "tipBehind thumbTip tip =
     (case (pz tip, pz thumbTip) of
        (Some a, Some b) \<Rightarrow> a \<noteq> 0 \<and> b \<noteq> 0 \<and> a > b + 0.005
      | _ \<Rightarrow> False)"

definition isEShape :: "pixelKeypoint list \<Rightarrow> error + bool" where
  "isEShape kps =
     (case isThumbAcrossPalm kps of
        Inl e \<Rightarrow> Inl e
      | Inr thumbAcrossPalm \<Rightarrow>
          (case (nth_opt kps 4, nth_opt kps 8, nth_opt kps 12, nth_opt kps 16,
                 nth_opt kps 20) of
             (Some thumbTip, Some indexTip, Some middleTip, Some ringTip, Some pinkyTip) \<Rightarrow>
               (let fingersBehind =
                      (length (filter (tipBehind thumbTip)
                                 [indexTip, middleTip, ringTip, pinkyTip]) \<ge> 3);
                    minDistance =
                      min (distance2D indexTip thumbTip)
                        (min (distance2D middleTip thumbTip)
                           (min (distance2D ringTip thumbTip) (distance2D pinkyTip thumbTip)));
                    notTouchingThumb = (minDistance > 30)
                in Inr (thumbAcrossPalm \<and> (fingersBehind \<or> notTouchingThumb)))
           | _ \<Rightarrow> Inl TypeError))"

text \<open>
  In \<open>isMShape\<close> a fingertip counts as in front when \<open>f.z !== undefined &&
  thumbTip.z !== undefined && f.diff > 0.005\<close>, with \<open>f.diff = f.z - thumbTip.z\<close>
  (\<open>NaN\<close> when a \<open>z\<close> is \<open>undefined\<close>). The log statement guards its \<open>toFixed\<close>:
  \<open>thumbTip.z ? thumbTip.z.toFixed(3) : 'null'\<close>, and \<open>f.diff.toFixed(3)\<close> is on a
  number.
\<close>

definition tipInFront :: "pixelKeypoint \<Rightarrow> pixelKeypoint \<Rightarrow> bool" where
  "tipInFront thumbTip tip =
     (case (pz tip, pz thumbTip) of
        (Some a, Some b) \<Rightarrow> a - b > 0.005
      | _ \<Rightarrow> False)"

definition isMShape :: "pixelKeypoint list \<Rightarrow> error + bool" where
  "isMShape kps =
     (case (nth_opt kps 4, nth_opt kps 8, nth_opt kps 12, nth_opt kps 16) of
        (Some thumbTip, Some indexTip, Some middleTip, Some ringTip) \<Rightarrow>
          (let d0 = distance2D indexTip thumbTip;
               d1 = distance2D middleTip thumbTip;
               d2 = distance2D ringTip thumbTip;
               avgDistance = (d0 + d1 + d2) / 3;
               minDistance = min d0 (min d1 d2);
               fingersInFrontCount =
                 length (filter (tipInFront thumbTip) [indexTip, middleTip, ringTip]);
               fingersInFront = (fingersInFrontCount \<ge> 2)
           in Inr (avgDistance < 28 \<and> minDistance < 22 \<and> fingersInFront))
      | _ \<Rightarrow> Inl TypeError)"

text \<open>
  In \<open>isNShape\<close> the depth difference is \<open>Math.abs(tip.z - thumbTip.z)\<close> (\<open>NaN\<close> when
  a \<open>z\<close> is \<open>undefined\<close>, and then not below \<open>0.03\<close>). Its second log statement calls
  \<open>thumbTip.z.toFixed(3)\<close>, \<open>indexTip.z.toFixed(3)\<close> and \<open>middleTip.z.toFixed(3)\<close>
  without a guard: a \<open>z\<close> that is \<open>undefined\<close> raises a \<open>TypeError\<close> there.
\<close>

definition depthClose :: "pixelKeypoint \<Rightarrow> pixelKeypoint \<Rightarrow> bool" where
  "depthClose thumbTip tip =
     (case (pz tip, pz thumbTip) of
        (Some a, Some b) \<Rightarrow> \<bar>a - b\<bar> < 0.03
      | _ \<Rightarrow> False)"

definition isNShape :: "pixelKeypoint list \<Rightarrow> error + bool" where
  "isNShape kps =
     (case (nth_opt kps 4, nth_opt kps 8, nth_opt kps 12) of
        (Some thumbTip, Some indexTip, Some middleTip) \<Rightarrow>
          (let d0 = distance2D indexTip thumbTip;
               d1 = distance2D middleTip thumbTip;
               avgDist = (d0 + d1) / 2;
               minDist = min d0 d1;
               fingersAtSimilarDepth =
                 length (filter (depthClose thumbTip) [indexTip, middleTip]);
               depthCheck = (fingersAtSimilarDepth \<ge> 1)
           in if pz thumbTip = None \<or> pz indexTip = None \<or> pz middleTip = None
              then Inl TypeError
              else Inr (avgDist < 35 \<and> minDist < 30 \<and> depthCheck))
      | _ \<Rightarrow> Inl TypeError)"

definition isXShape :: "pixelKeypoint list \<Rightarrow> bool \<Rightarrow> error + bool" where
  "isXShape kps indexExt =
     (if \<not> indexExt then Inr False
      else
        (case (nth_opt kps 8, nth_opt kps 6, nth_opt kps 5) of
           (Some indexTip, Some indexPIP, Some indexMCP) \<Rightarrow>
             (let tipToMid = distance2D indexTip indexPIP;
                  midToBase = distance2D indexPIP indexMCP
              in Inr (tipToMid < midToBase * 1.2))
         | _ \<Rightarrow> Inl TypeError))"

subsection \<open>detectASLLetter\<close>

text \<open>
  The body of \<open>detectASLLetter\<close> is a sequence of \<open>if (...) return letter\<close>. Each
  \<open>if\<close> is an entry of a list: \<open>Inr (Some letter)\<close> when its condition holds,
  \<open>Inr None\<close> when it does not, \<open>Inl e\<close> when evaluating the condition raises.
  \<open>first_match\<close> walks the list in order and stops at the first entry that returns or
  raises; \<open>'unknown'\<close> is left when no entry does. \<open>guarded c r\<close> is \<open>c && r\<close> with
  \<open>r\<close> a helper call, which is not evaluated when \<open>c\<close> is false.
\<close>

fun first_match :: "(error + string option) list \<Rightarrow> error + string" where
  "first_match [] = Inr ''unknown''"
| "first_match (r # rs) =
     (case r of
        Inl e \<Rightarrow> Inl e
      | Inr (Some letter) \<Rightarrow> Inr letter
      | Inr None \<Rightarrow> first_match rs)"

definition letter_if :: "string \<Rightarrow> error + bool \<Rightarrow> error + string option" where
  "letter_if letter r =
     (case r of Inl e \<Rightarrow> Inl e | Inr b \<Rightarrow> Inr (if b then Some letter else None))"

definition guarded :: "bool \<Rightarrow> error + bool \<Rightarrow> error + bool" where
  "guarded c r = (if c then r else Inr False)"

definition negated :: "error + bool \<Rightarrow> error + bool" where
  "negated r = (case r of Inl e \<Rightarrow> Inl e | Inr b \<Rightarrow> Inr (\<not> b))"

text \<open>
  The three thumb helpers are evaluated first, in every call. \<open>isKShape\<close> is evaluated
  into \<open>kShapeValid\<close> before the finger flags of the \<open>K\<close> rule are tested, so it runs
  whenever no earlier rule has returned. The first five rules are the block under
  \<open>if (allFingersClosed)\<close>.
\<close>

definition detectASLLetter ::
  "pixelKeypoint list \<Rightarrow> bool \<Rightarrow> bool \<Rightarrow> bool \<Rightarrow> bool \<Rightarrow> bool \<Rightarrow> error + string"
where
  "detectASLLetter kps thumbExt indexExt middleExt ringExt pinkyExt =
     (case isThumbAcrossPalm kps of
        Inl e \<Rightarrow> Inl e
      | Inr thumbAcrossPalm \<Rightarrow>
     (case isThumbToSide kps of
        Inl e \<Rightarrow> Inl e
      | Inr thumbToSide \<Rightarrow>
     (case isThumbTouchingFingers kps of
        Inl e \<Rightarrow> Inl e
      | Inr thumbTouchingFingers \<Rightarrow>
     (let allFingersClosed = (\<not> indexExt \<and> \<not> middleExt \<and> \<not> ringExt \<and> \<not> pinkyExt);
          indexOnly = (indexExt \<and> \<not> middleExt \<and> \<not> ringExt \<and> \<not> pinkyExt);
          indexAndMiddle = (indexExt \<and> middleExt \<and> \<not> ringExt \<and> \<not> pinkyExt)
      in first_match
        [ letter_if ''A'' (Inr (allFingersClosed \<and> thumbToSide \<and> \<not> thumbAcrossPalm)),
          letter_if ''M'' (guarded allFingersClosed (isMShape kps)),
          letter_if ''E'' (guarded allFingersClosed (isEShape kps)),
          letter_if ''S'' (guarded allFingersClosed (isThumbInFront kps)),
          letter_if ''A'' (Inr (allFingersClosed \<and> thumbToSide)),
          letter_if ''D'' (guarded indexOnly (isDShape kps)),
          letter_if ''B''
            (Inr (indexExt \<and> middleExt \<and> ringExt \<and> pinkyExt \<and> thumbAcrossPalm)),
          letter_if ''F''
            (guarded (middleExt \<and> ringExt \<and> pinkyExt \<and> \<not> indexExt) (isFShape kps)),
          letter_if ''H'' (guarded indexAndMiddle (isHShape kps)),
          letter_if ''Q'' (guarded (indexOnly \<and> thumbExt) (isQShape kps)),
          letter_if ''G'' (guarded (indexOnly \<and> thumbExt) (isGShape kps indexExt thumbExt)),
          letter_if ''P'' (guarded indexAndMiddle (isPShape kps)),
          letter_if ''K''
            (case isKShape kps of
               Inl e \<Rightarrow> Inl e
             | Inr kShapeValid \<Rightarrow> Inr (indexAndMiddle \<and> kShapeValid)),
          letter_if ''I''
            (Inr (\<not> indexExt \<and> \<not> middleExt \<and> \<not> ringExt \<and> pinkyExt \<and> thumbAcrossPalm)),
          letter_if ''L'' (guarded (indexOnly \<and> thumbExt) (isLShape kps)),
          letter_if ''N'' (guarded allFingersClosed (isNShape kps)),
          letter_if ''C'' (isCShape kps),
          letter_if ''O'' (isOShape kps),
          letter_if ''R'' (isRShape kps indexExt middleExt),
          letter_if ''S'' (guarded allFingersClosed (isThumbInFront kps)),
          letter_if ''T'' (isTShape kps),
          letter_if ''U'' (guarded indexAndMiddle (areFingersTogether kps 8 12)),
          letter_if ''V'' (guarded indexAndMiddle (negated (areFingersTogether kps 8 12))),
          letter_if ''W''
            (Inr (indexExt \<and> middleExt \<and> ringExt \<and> \<not> pinkyExt \<and> \<not> thumbExt)),
          letter_if ''X'' (isXShape kps indexExt),
          letter_if ''Y''
            (Inr (thumbExt \<and> \<not> indexExt \<and> \<not> middleExt \<and> \<not> ringExt \<and> pinkyExt)),
          letter_if ''Z'' (Inr (indexOnly \<and> \<not> thumbExt)) ]))))"

subsection \<open>classifyGesture\<close>

text \<open>
  The local array \<open>keypoints\<close> of \<open>classifyGesture\<close>: the converted 3D points when
  \<open>keypoints3D\<close> is present and non-empty, else the 2D points when \<open>keypoints\<close> is
  present and non-empty, else nothing (the function returns \<open>'none'\<close>). In the first
  branch the array is non-empty, so \<open>minZ\<close> and \<open>maxZ\<close> are finite.
\<close>

definition local_keypoints :: "hand \<Rightarrow> keypoint list option" where
  "local_keypoints h =
     (case keypoints3D h of
        Some (p # ps) \<Rightarrow>
          (let minZ = (case minZ_of (p # ps) of Some m \<Rightarrow> m | None \<Rightarrow> 0);
               maxZ = (case maxZ_of (p # ps) of Some m \<Rightarrow> m | None \<Rightarrow> 0);
               zRange = (if maxZ - minZ = 0 then 1 else maxZ - minZ)
           in Some (map (convert3D minZ zRange) (p # ps)))
      | _ \<Rightarrow>
          (case keypoints h of
             Some (q # qs) \<Rightarrow> Some (map from2D (q # qs))
           | _ \<Rightarrow> None))"

definition classifyGesture :: "hand list \<Rightarrow> error + string" where
  "classifyGesture hands =
     (case hands of
        [] \<Rightarrow> Inr ''none''
      | h # _ \<Rightarrow>
          (case local_keypoints h of
             None \<Rightarrow> Inr ''none''
           | Some kps \<Rightarrow>
               (let pixelKeypoints = map toPixel kps;
                    thumbExtended = isFingerExtended pixelKeypoints thumb;
                    indexExtended = isFingerExtended pixelKeypoints index;
                    middleExtended = isFingerExtended pixelKeypoints middle;
                    ringExtended = isFingerExtended pixelKeypoints ring;
                    pinkyExtended = isFingerExtended pixelKeypoints pinky
                in detectASLLetter pixelKeypoints thumbExtended indexExtended
                     middleExtended ringExtended pinkyExtended)))"

subsection \<open>detectGesture\<close>

text \<open>
  \<open>videoReady\<close> is the outcome of the checks on the video element and \<open>hands\<close> the
  array returned by \<open>estimateHands\<close>. The result object is reduced to its \<open>gesture\<close>
  and \<open>confidence\<close>; a returned \<open>null\<close> is \<open>None\<close>. Everything after the test for an
  empty \<open>hands\<close> array runs inside \<open>try\<close>, and the \<open>catch\<close> returns \<open>null\<close>, keeping
  the mutations made before the throw.

  \<open>calculateConfidence\<close> returns the literal \<open>0\<close> for an empty array and otherwise
  \<open>Math.round(avgScore * 100)\<close>, where \<open>avgScore\<close> is the mean of the scores
  (\<open>kp.score || 0\<close>) computed in double precision. The rounding of that arithmetic is
  not reproduced: the value is kept as \<open>RoundedMeanPercent scores\<close>, the number the
  runtime computes from these scores (\<open>NaN\<close> for no scores).
\<close>

datatype confidence_value = Number int | RoundedMeanPercent "real list"

record detection =
  gesture :: "string option"
  confidence :: confidence_value

text \<open>The debug block reads \<open>keypoints3D[8].x\<close> whenever \<open>keypoints3D\<close> is non-empty.\<close>

definition samplePoint_readable :: "hand \<Rightarrow> bool" where
  "samplePoint_readable h =
     (case keypoints3D h of
        None \<Rightarrow> True
      | Some ps \<Rightarrow> ps = [] \<or> 8 < length ps)"

definition calculateConfidence :: "hand list \<Rightarrow> error + confidence_value" where
  "calculateConfidence hands =
     (case hands of
        [] \<Rightarrow> Inr (Number 0)
      | h # _ \<Rightarrow>
          (case keypoints h of
             None \<Rightarrow> Inl TypeError
           | Some kps \<Rightarrow>
               Inr (RoundedMeanPercent
                      (map (\<lambda>kp. case p2_score kp of Some v \<Rightarrow> v | None \<Rightarrow> 0) kps))))"

definition push_buffer :: "string \<Rightarrow> detector \<Rightarrow> detector" where
  "push_buffer rawGesture s =
     (let b = gestureBuffer s @ [rawGesture]
      in s\<lparr>gestureBuffer := (if length b > bufferSize s then tl b else b)\<rparr>)"

definition detectGesture ::
  "int \<Rightarrow> bool \<Rightarrow> hand list \<Rightarrow> detector \<Rightarrow> detection option \<times> detector"
where
  "detectGesture currentTime videoReady hands s =
     (if \<not> isInitialized s \<or> \<not> hasDetector s then (None, s)
      else if \<not> videoReady then (None, s)
      else
        (case hands of
           [] \<Rightarrow> (Some \<lparr>gesture = Some ''none'', confidence = Number 0\<rparr>, s)
         | h # _ \<Rightarrow>
             if \<not> samplePoint_readable h then (None, s)
             else
               (case classifyGesture hands of
                  Inl e \<Rightarrow> (None, s)
                | Inr rawGesture \<Rightarrow>
                    (let (smoothedGesture, s1) = smoothGesture currentTime rawGesture s;
                         s2 = push_buffer rawGesture s1
                     in case calculateConfidence hands of
                          Inl e \<Rightarrow> (None, s2)
                        | Inr c \<Rightarrow> (Some \<lparr>gesture = smoothedGesture, confidence = c\<rparr>, s2)))))"

section \<open>Sentence builder (sentenceBuilder.js)\<close>

subsection \<open>Strings\<close>

definition lower_letters :: string where
  "lower_letters = ''abcdefghijklmnopqrstuvwxyz''"

definition upper_letters :: string where
  "upper_letters = ''ABCDEFGHIJKLMNOPQRSTUVWXYZ''"

definition toUpperCase :: "string \<Rightarrow> string" where
  "toUpperCase w =
     map (\<lambda>c. case map_of (zip lower_letters upper_letters) c of Some u \<Rightarrow> u | None \<Rightarrow> c) w"

definition toLowerCase :: "string \<Rightarrow> string" where
  "toLowerCase w =
     map (\<lambda>c. case map_of (zip upper_letters lower_letters) c of Some l \<Rightarrow> l | None \<Rightarrow> c) w"

text \<open>\<open>w.slice(-n)\<close>: the last \<open>n\<close> characters, or all of \<open>w\<close> when it is shorter.\<close>

definition slice_last :: "nat \<Rightarrow> string \<Rightarrow> string" where
  "slice_last n w = drop (length w - n) w"

text \<open>The test \<open>/^[A-Z]$/i\<close>: exactly one ASCII letter of either case.\<close>

definition is_letter :: "string \<Rightarrow> bool" where
  "is_letter letter =
     (case letter of
        [c] \<Rightarrow> c \<in> set upper_letters \<or> c \<in> set lower_letters
      | _ \<Rightarrow> False)"

text \<open>\<open>s.split(' ')\<close> and \<open>words.join(' ')\<close>.\<close>

fun split_space :: "string \<Rightarrow> string list" where
  "split_space [] = [[]]"
| "split_space (c # cs) =
     (if c = CHR '' '' then [] # split_space cs
      else (case split_space cs of
              w # ws \<Rightarrow> (c # w) # ws
            | [] \<Rightarrow> [[c]]))"

fun join_space :: "string list \<Rightarrow> string" where
  "join_space [] = []"
| "join_space [w] = w"
| "join_space (w # ws) = w @ '' '' @ join_space ws"

subsection \<open>The two tables\<close>

text \<open>
  \<open>autoCorrectDict\<close> in the order of its keys (\<open>Object.keys\<close> lists string keys in
  insertion order) and the elements of \<open>commonWords\<close> in the order of the array literal
  the \<open>Set\<close> is built from. The literal repeats three words; a \<open>Set\<close> keeps the first
  occurrence, and neither membership nor the scan of \<open>findClosestWord\<close> (which replaces
  its candidate only on a strictly smaller distance) can tell the difference.
\<close>

definition autoCorrectDict :: "(string \<times> string) list" where
  "autoCorrectDict =
     [
      (''teh'', ''the''), (''hte'', ''the''), (''adn'', ''and''), (''nad'', ''and''),
      (''thsi'', ''this''), (''taht'', ''that''), (''waht'', ''what''),
      (''wiht'', ''with''), (''wnat'', ''want''), (''hvae'', ''have''), (''cna'', ''can''),
      (''yuo'', ''you''), (''yuor'', ''your''), (''jsut'', ''just''),
      (''dont'', ''don't''), (''cant'', ''can't''), (''wont'', ''won't''),
      (''im'', ''i'm''), (''ill'', ''i'll''), (''helo'', ''hello''),
      (''helllo'', ''hello''), (''hllo'', ''hello''), (''thankks'', ''thanks''),
      (''thanx'', ''thanks''), (''plz'', ''please''), (''pls'', ''please''),
      (''sry'', ''sorry''), (''srry'', ''sorry''), (''becuase'', ''because''),
      (''beacuse'', ''because''), (''freind'', ''friend''), (''frend'', ''friend''),
      (''recieve'', ''receive''), (''recive'', ''receive''), (''beleive'', ''believe''),
      (''belive'', ''believe''), (''occured'', ''occurred''), (''seperate'', ''separate''),
      (''definately'', ''definitely''), (''tommorrow'', ''tomorrow''),
      (''tonite'', ''tonight''), (''untill'', ''until''), (''thier'', ''their''),
      (''occassion'', ''occasion''), (''embarass'', ''embarrass''),
      (''realy'', ''really''), (''goverment'', ''government''),
      (''enviroment'', ''environment'')
     ]"

definition commonWords :: "string list" where
  "commonWords =
     [
      ''i'', ''me'', ''my'', ''you'', ''your'', ''he'', ''him'', ''his'', ''she'', ''her'',
      ''it'', ''its'', ''we'', ''us'', ''our'', ''they'', ''them'', ''their'', ''am'',
      ''is'', ''are'', ''was'', ''were'', ''be'', ''been'', ''being'', ''have'', ''has'',
      ''had'', ''do'', ''does'', ''did'', ''done'', ''will'', ''would'', ''should'',
      ''could'', ''can'', ''may'', ''might'', ''go'', ''goes'', ''went'', ''come'',
      ''comes'', ''came'', ''get'', ''gets'', ''got'', ''give'', ''gives'', ''gave'',
      ''make'', ''makes'', ''made'', ''take'', ''takes'', ''took'', ''see'', ''sees'',
      ''saw'', ''know'', ''knows'', ''knew'', ''think'', ''thinks'', ''thought'', ''want'',
      ''wants'', ''wanted'', ''need'', ''needs'', ''needed'', ''like'', ''likes'',
      ''liked'', ''love'', ''loves'', ''loved'', ''help'', ''helps'', ''helped'', ''use'',
      ''uses'', ''used'', ''work'', ''works'', ''worked'', ''try'', ''tries'', ''tried'',
      ''ask'', ''asks'', ''asked'', ''feel'', ''feels'', ''felt'', ''become'', ''becomes'',
      ''became'', ''leave'', ''leaves'', ''left'', ''put'', ''puts'', ''call'', ''calls'',
      ''called'', ''the'', ''a'', ''an'', ''and'', ''or'', ''but'', ''if'', ''as'', ''of'',
      ''at'', ''by'', ''for'', ''with'', ''from'', ''to'', ''in'', ''on'', ''off'',
      ''out'', ''up'', ''down'', ''about'', ''over'', ''under'', ''again'', ''then'',
      ''than'', ''so'', ''such'', ''what'', ''when'', ''where'', ''who'', ''whom'',
      ''whose'', ''which'', ''why'', ''how'', ''one'', ''two'', ''three'', ''four'',
      ''five'', ''six'', ''seven'', ''eight'', ''nine'', ''ten'', ''first'', ''second'',
      ''third'', ''last'', ''next'', ''today'', ''tomorrow'', ''yesterday'', ''now'',
      ''later'', ''soon'', ''never'', ''morning'', ''afternoon'', ''evening'', ''night'',
      ''day'', ''week'', ''month'', ''year'', ''time'', ''hour'', ''minute'', ''second'',
      ''good'', ''great'', ''bad'', ''new'', ''old'', ''big'', ''small'', ''long'',
      ''short'', ''high'', ''low'', ''hot'', ''cold'', ''warm'', ''cool'', ''fast'',
      ''slow'', ''easy'', ''hard'', ''happy'', ''sad'', ''nice'', ''pretty'',
      ''beautiful'', ''right'', ''wrong'', ''true'', ''false'', ''sure'', ''okay'', ''ok'',
      ''fine'', ''ready'', ''busy'', ''free'', ''full'', ''empty'', ''open'', ''close'',
      ''closed'', ''man'', ''woman'', ''boy'', ''girl'', ''person'', ''people'', ''child'',
      ''children'', ''friend'', ''family'', ''dad'', ''mom'', ''parent'', ''brother'',
      ''sister'', ''home'', ''house'', ''room'', ''door'', ''window'', ''car'', ''phone'',
      ''computer'', ''food'', ''water'', ''work'', ''school'', ''place'', ''thing'',
      ''way'', ''life'', ''world'', ''hand'', ''eye'', ''face'', ''head'', ''body'',
      ''heart'', ''please'', ''thank'', ''thanks'', ''sorry'', ''excuse'', ''welcome'',
      ''yes'', ''no'', ''hello'', ''hi'', ''hey'', ''bye'', ''goodbye'', ''goodnight'',
      ''talk'', ''speak'', ''say'', ''tell'', ''sign'', ''show'', ''look'', ''watch'',
      ''hear'', ''listen'', ''understand'', ''mean'', ''wait'', ''stop'', ''start'',
      ''meet'', ''call'', ''video'', ''chat'', ''message'', ''text''
     ]"

text \<open>
  \<open>this.autoCorrectDict[lowerWord]\<close> is a property read on a plain object, so besides
  the table's own keys it finds what the object inherits. Two inherited names are equal
  to their own lower-case form: \<open>constructor\<close> (the function \<open>Object\<close>) and
  \<open>__proto__\<close> (the object \<open>Object.prototype\<close>). Both values are truthy.
\<close>

datatype jsvalue = JStr string | JObjectFunction | JObjectPrototype

definition dict_get :: "string \<Rightarrow> jsvalue option" where
  "dict_get k =
     (case map_of autoCorrectDict k of
        Some v \<Rightarrow> Some (JStr v)
      | None \<Rightarrow>
          if k = ''constructor'' then Some JObjectFunction
          else if k = ''__proto__'' then Some JObjectPrototype
          else None)"

text \<open>String concatenation with such a value; the text of a built-in function is V8's.\<close>

fun js_to_string :: "jsvalue \<Rightarrow> string" where
  "js_to_string (JStr w) = w"
| "js_to_string JObjectFunction = ''function Object() { [native code] }''"
| "js_to_string JObjectPrototype = ''[object Object]''"

subsection \<open>simpleCorrect\<close>

text \<open>
  \<open>word.replace(/(.)\1{2,}/g, '$1$1')\<close>: scanning from the left, a character other than
  a line terminator that is followed by two or more copies of itself is matched together
  with all the copies and replaced by two of it.
\<close>

definition is_line_terminator :: "char \<Rightarrow> bool" where
  "is_line_terminator c = (c = CHR 0x0A \<or> c = CHR 0x0D)"

function collapse_repeats :: "string \<Rightarrow> string" where
  "collapse_repeats [] = []"
| "collapse_repeats (c # cs) =
     (if \<not> is_line_terminator c \<and> length (takeWhile (\<lambda>d. d = c) cs) \<ge> 2
      then c # c # collapse_repeats (dropWhile (\<lambda>d. d = c) cs)
      else c # collapse_repeats cs)"
  by pat_completeness auto
termination
  by (relation "measure length") (auto simp: less_Suc_eq_le length_dropWhile_le)

text \<open>\<open>s.includes(pat)\<close> and \<open>s.replace(pat, repl)\<close> for a string pattern (first match only).\<close>

fun js_includes :: "string \<Rightarrow> string \<Rightarrow> bool" where
  "js_includes [] pat = (pat = [])"
| "js_includes (c # cs) pat = (take (length pat) (c # cs) = pat \<or> js_includes cs pat)"

fun replace_first :: "string \<Rightarrow> string \<Rightarrow> string \<Rightarrow> string" where
  "replace_first [] pat repl = (if pat = [] then repl else [])"
| "replace_first (c # cs) pat repl =
     (if take (length pat) (c # cs) = pat then repl @ drop (length pat) (c # cs)
      else c # replace_first cs pat repl)"

definition swaps :: "(string \<times> string) list" where
  "swaps = [(''ei'', ''ie''), (''mn'', ''nm''), (''nm'', ''mn'')]"

fun try_swaps :: "(string \<times> string) list \<Rightarrow> string \<Rightarrow> string" where
  "try_swaps [] corrected = corrected"
| "try_swaps ((wrong, right) # rest) corrected =
     (if js_includes corrected wrong
         \<and> replace_first corrected wrong right \<in> set commonWords
      then replace_first corrected wrong right
      else try_swaps rest corrected)"

definition simpleCorrect :: "string \<Rightarrow> string" where
  "simpleCorrect word = try_swaps swaps (collapse_repeats word)"

subsection \<open>levenshteinDistance\<close>

text \<open>
  The matrix is filled row by row; \<open>fill_row\<close> computes \<open>matrix[i][j..]\<close> from the
  character \<open>b.charAt(i - 1)\<close>, the rest of \<open>a\<close>, the previous row from column \<open>j - 1\<close>
  on, and \<open>matrix[i][j - 1]\<close>.
\<close>

fun fill_row :: "char \<Rightarrow> string \<Rightarrow> nat list \<Rightarrow> nat \<Rightarrow> nat list" where
  "fill_row bc [] prev left = []"
| "fill_row bc (ac # as) prev left =
     (case prev of
        diag # up # rest \<Rightarrow>
          (let v = (if bc = ac then diag
                    else min (diag + 1) (min (left + 1) (up + 1)))
           in v # fill_row bc as (up # rest) v)
      | _ \<Rightarrow> [])"

fun fill_rows :: "string \<Rightarrow> string \<Rightarrow> nat list \<Rightarrow> nat \<Rightarrow> nat list" where
  "fill_rows [] a prev i = prev"
| "fill_rows (bc # bs) a prev i = fill_rows bs a (i # fill_row bc a prev i) (Suc i)"

definition levenshteinDistance :: "string \<Rightarrow> string \<Rightarrow> nat" where
  "levenshteinDistance a b =
     (if a = [] then length b
      else if b = [] then length a
      else last (fill_rows b a [0..<Suc (length a)] 1))"

subsection \<open>findClosestWord and autoCorrect\<close>

text \<open>
  The pair \<open>(closestWord, minDistance)\<close> of the two loops; \<open>minDistance = None\<close> is
  \<open>Infinity\<close>. A candidate is a key to measure against and the word to return for it.
\<close>

type_synonym closest = "string option \<times> nat option"

definition scan_step :: "string \<Rightarrow> nat \<Rightarrow> closest \<Rightarrow> string \<times> string \<Rightarrow> closest" where
  "scan_step word maxDistance acc cand =
     (let distance = levenshteinDistance word (fst cand)
      in if distance \<le> maxDistance
            \<and> (case snd acc of None \<Rightarrow> True | Some minDistance \<Rightarrow> distance < minDistance)
         then (Some (snd cand), Some distance)
         else acc)"

text \<open>
  \<open>Math.ceil(word.length * 0.4)\<close>: the double nearest to \<open>0.4\<close> exceeds it by a
  relative \<open>2\<^sup>-\<^sup>5\<^sup>4\<close>, which the rounding of the product absorbs, so the result is the
  exact ceiling of \<open>2 n / 5\<close>.
\<close>

definition maxDistance_of :: "string \<Rightarrow> nat" where
  "maxDistance_of word = (2 * length word + 4) div 5"

definition candidates :: "(string \<times> string) list" where
  "candidates = autoCorrectDict @ map (\<lambda>w. (w, w)) commonWords"

definition findClosestWord :: "string \<Rightarrow> string option" where
  "findClosestWord word =
     (if length word < 3 then None
      else
        (let maxDistance = maxDistance_of word;
             afterDict = foldl (scan_step word maxDistance) (None, None) autoCorrectDict;
             afterWords = foldl (scan_step word maxDistance) afterDict
                            (map (\<lambda>w. (w, w)) commonWords)
         in fst afterWords))"

definition autoCorrect :: "string \<Rightarrow> jsvalue" where
  "autoCorrect word =
     (let lowerWord = toLowerCase word
      in case dict_get lowerWord of
           Some v \<Rightarrow> v
         | None \<Rightarrow>
             if lowerWord \<in> set commonWords then JStr lowerWord
             else
               (let simpleCorrection = simpleCorrect lowerWord
                in if simpleCorrection \<noteq> lowerWord then JStr simpleCorrection
                   else
                     (case findClosestWord lowerWord of
                        Some fuzzyMatch \<Rightarrow>
                          if fuzzyMatch \<noteq> [] \<and> fuzzyMatch \<noteq> lowerWord then JStr fuzzyMatch
                          else JStr lowerWord
                      | None \<Rightarrow> JStr lowerWord)))"

subsection \<open>The builder object and its operations\<close>

record builder =
  currentWord :: string
  sentence :: string
  lastLetter :: string
  lastLetterTimestamp :: int
  letterHoldTime :: int

definition constructor_builder :: builder where
  "constructor_builder =
     \<lparr> currentWord = [], sentence = [], lastLetter = [],
       lastLetterTimestamp = 0, letterHoldTime = 1500 \<rparr>"

datatype action =
    duplicate_blocked | debounced | triple_prevented | letter_added | ignored
  | space_ignored | word_completed | letter_deleted | word_deleted | backspace_ignored
  | cleared | word_cleared

record result =
  r_currentWord :: string
  r_sentence :: string
  r_action :: action
  r_correctedWord :: "jsvalue option"

text \<open>The object literal that every branch returns, built from the fields at that point.\<close>

definition report :: "builder \<Rightarrow> action \<Rightarrow> result" where
  "report s a =
     \<lparr> r_currentWord = currentWord s, r_sentence = sentence s, r_action = a,
       r_correctedWord = None \<rparr>"

text \<open>
  \<open>addSpace\<close>. With an empty sentence the code calls \<open>correctedWord.charAt(0)\<close>, which
  throws when \<open>autoCorrect\<close> returned one of the two inherited values; nothing has been
  assigned at that point.
\<close>

definition addSpace :: "builder \<Rightarrow> (error + result) \<times> builder" where
  "addSpace s =
     (if length (currentWord s) = 0 then (Inr (report s space_ignored), s)
      else
        (let correctedWord = autoCorrect (currentWord s);
             newSentence =
               (if length (sentence s) > 0
                then Inr (sentence s @ '' '' @ js_to_string correctedWord)
                else (case correctedWord of
                        JStr w \<Rightarrow> Inr (toUpperCase (take 1 w) @ drop 1 w)
                      | _ \<Rightarrow> Inl TypeError))
         in case newSentence of
              Inl e \<Rightarrow> (Inl e, s)
            | Inr sen \<Rightarrow>
                (Inr \<lparr> r_currentWord = [], r_sentence = sen, r_action = word_completed,
                       r_correctedWord =
                         (if correctedWord \<noteq> JStr (currentWord s)
                          then Some correctedWord else None) \<rparr>,
                 s\<lparr>sentence := sen, currentWord := [], lastLetter := []\<rparr>)))"

definition backspace :: "builder \<Rightarrow> result \<times> builder" where
  "backspace s =
     (if length (currentWord s) > 0 then
        (let s' = s\<lparr>currentWord := butlast (currentWord s)\<rparr>
         in (report s' letter_deleted, s'))
      else if length (sentence s) > 0 then
        (let words = split_space (sentence s);
             s' = s\<lparr>sentence := join_space (butlast words)\<rparr>
         in (report s' word_deleted, s'))
      else (report s backspace_ignored, s))"

definition clear :: "builder \<Rightarrow> result \<times> builder" where
  "clear s =
     (let s' = s\<lparr>currentWord := [], sentence := [], lastLetter := []\<rparr>
      in (report s' cleared, s'))"

definition clearWord :: "builder \<Rightarrow> result \<times> builder" where
  "clearWord s =
     (let s' = s\<lparr>currentWord := [], lastLetter := []\<rparr>
      in (report s' word_cleared, s'))"

definition setSentence :: "string \<Rightarrow> builder \<Rightarrow> builder" where
  "setSentence newSentence s = s\<lparr>sentence := newSentence, currentWord := []\<rparr>"

text \<open>\<open>addLetter\<close>; the parameter \<open>confidence\<close> is never read and is left out.\<close>

definition addLetter :: "string \<Rightarrow> int \<Rightarrow> builder \<Rightarrow> (error + result) \<times> builder" where
  "addLetter letter now s =
     (let timeSinceLastLetter = now - lastLetterTimestamp s;
          lastLetterInWord = toUpperCase (slice_last 1 (currentWord s));
          isRepeatingLastLetter = (letter = lastLetterInWord)
      in if isRepeatingLastLetter \<and> timeSinceLastLetter < 2000
         then (Inr (report s duplicate_blocked), s)
         else if letter = lastLetter s \<and> timeSinceLastLetter < letterHoldTime s
         then (Inr (report s debounced), s)
         else if letter = ''SPACE'' then addSpace s
         else if letter = ''BACKSPACE'' \<or> letter = ''DELETE''
         then (let (r, s') = backspace s in (Inr r, s'))
         else if letter = ''CLEAR''
         then (let (r, s') = clear s in (Inr r, s'))
         else if is_letter letter then
           (let lowerLetter = toLowerCase letter;
                lastTwoLetters = slice_last 2 (currentWord s)
            in if lastTwoLetters = lowerLetter @ lowerLetter
               then (Inr (report s triple_prevented), s)
               else
                 (let s' = s\<lparr>currentWord := currentWord s @ lowerLetter,
                              lastLetter := letter,
                              lastLetterTimestamp := now\<rparr>
                  in (Inr (report s' letter_added), s')))
         else (Inr (report s ignored), s))"

section \<open>States and runs used in the statements\<close>

text \<open>
  The detector after three ticks of one letter 200 ms apart, which confirm the letter:
  \<open>'K'\<close> on an initialised detector, \<open>'C'\<close> on a freshly constructed one.
\<close>

definition confirmed_K :: detector where
  "confirmed_K = snd (feed [(1000, ''K''), (1200, ''K''), (1400, ''K'')] initialized_detector)"

definition confirmed_C :: detector where
  "confirmed_C = snd (feed [(1000, ''C''), (1200, ''C''), (1400, ''C'')] constructor_detector)"


text \<open>
  Hands used in the statements, all with every landmark at one point: a hand with an
  empty \<open>keypoints3D\<close> array and no \<open>keypoints\<close>; a complete hand of 21 landmarks
  delivered as \<open>keypoints3D\<close>; the same with only the first 9 (wrist, thumb, index
  finger) or the first 13 landmarks; and a complete hand of 21 landmarks delivered as
  2D \<open>keypoints\<close> only, which \<open>classifyGesture\<close> takes on its fallback branch.
\<close>

definition landmark_names :: "string list" where
  "landmark_names =
     [''wrist'', ''thumb_cmc'', ''thumb_mcp'', ''thumb_ip'', ''thumb_tip'',
      ''index_finger_mcp'', ''index_finger_pip'', ''index_finger_dip'', ''index_finger_tip'',
      ''middle_finger_mcp'', ''middle_finger_pip'', ''middle_finger_dip'',
      ''middle_finger_tip'', ''ring_finger_mcp'', ''ring_finger_pip'', ''ring_finger_dip'',
      ''ring_finger_tip'', ''pinky_finger_mcp'', ''pinky_finger_pip'', ''pinky_finger_dip'',
      ''pinky_finger_tip'']"

definition hand_of_names :: "string list \<Rightarrow> hand" where
  "hand_of_names names =
     \<lparr> keypoints = None,
       keypoints3D = Some (map (\<lambda>n. \<lparr>p3_x = 0, p3_y = 0, p3_z = 0, p3_name = n\<rparr>) names) \<rparr>"

definition empty_hand :: hand where
  "empty_hand = \<lparr> keypoints = None, keypoints3D = Some [] \<rparr>"

definition full_hand :: hand where
  "full_hand = hand_of_names landmark_names"

definition partial_hand :: hand where
  "partial_hand = hand_of_names (take 9 landmark_names)"

definition thirteen_hand :: hand where
  "thirteen_hand = hand_of_names (take 13 landmark_names)"

definition flat_hand_2D :: hand where
  "flat_hand_2D =
     \<lparr> keypoints = Some (map (\<lambda>n. \<lparr>p2_x = 0, p2_y = 0, p2_score = None, p2_name = n\<rparr>)
                          landmark_names),
       keypoints3D = None \<rparr>"

text \<open>A run of three or more identical consecutive characters.\<close>

fun has_triple :: "string \<Rightarrow> bool" where
  "has_triple (a # b # c # cs) = ((a = b \<and> b = c) \<or> has_triple (b # c # cs))"
| "has_triple _ = False"

text \<open>
  The calls a client can make on the builder, and the state after a sequence of them.
  Every reachable state of the builder is \<open>run ops constructor_builder\<close> for some
  \<open>ops\<close>.
\<close>

datatype op =
    AddLetter string int | AddSpace | Backspace | Clear | ClearWord | SetSentence string

fun apply_op :: "op \<Rightarrow> builder \<Rightarrow> builder" where
  "apply_op (AddLetter letter now) s = snd (addLetter letter now s)"
| "apply_op AddSpace s = snd (addSpace s)"
| "apply_op Backspace s = snd (backspace s)"
| "apply_op Clear s = snd (clear s)"
| "apply_op ClearWord s = snd (clearWord s)"
| "apply_op (SetSentence newSentence) s = setSentence newSentence s"

definition run :: "op list \<Rightarrow> builder \<Rightarrow> builder" where
  "run ops s = fold apply_op ops s"

definition word_aa :: builder where
  "word_aa = run [AddLetter ''A'' 10000, AddLetter ''A'' 13000] constructor_builder"

definition word_hi :: builder where
  "word_hi = run [AddLetter ''H'' 10000, AddLetter ''I'' 11000] constructor_builder"

text \<open>
  The Levenshtein distance as the claims mean it: \<open>edits n xs ys\<close> says that \<open>xs\<close> is
  turned into \<open>ys\<close> by \<open>n\<close> single-character substitutions, deletions and insertions
  (reading both words from the left, a character is kept, substituted, deleted or
  inserted), and \<open>edit_distance xs ys\<close> is the least such \<open>n\<close>.
\<close>

inductive edits :: "nat \<Rightarrow> 'a list \<Rightarrow> 'a list \<Rightarrow> bool" where
  edits_Nil: "edits 0 [] []"
| edits_keep: "edits n xs ys \<Longrightarrow> edits n (x # xs) (x # ys)"
| edits_subst: "edits n xs ys \<Longrightarrow> edits (Suc n) (x # xs) (y # ys)"
| edits_delete: "edits n xs ys \<Longrightarrow> edits (Suc n) (x # xs) ys"
| edits_insert: "edits n xs ys \<Longrightarrow> edits (Suc n) xs (y # ys)"

definition edit_distance :: "'a list \<Rightarrow> 'a list \<Rightarrow> nat" where
  "edit_distance xs ys = (LEAST n. edits n xs ys)"

text \<open>
  Two functions for the proof that the matrix of \<open>levenshteinDistance\<close> computes
  \<open>edit_distance\<close>: the recurrence that one cell of the matrix obeys, and a row of the
  matrix (\<open>B\<close> and \<open>A\<close> are the prefixes of \<open>b\<close> and \<open>a\<close> read so far, reversed).
\<close>

fun lev :: "'a list \<Rightarrow> 'a list \<Rightarrow> nat" where
  "lev [] ys = length ys"
| "lev (x # xs) [] = Suc (length xs)"
| "lev (x # xs) (y # ys) =
     (if x = y then lev xs ys
      else min (lev xs ys + 1) (min (lev (x # xs) ys + 1) (lev xs (y # ys) + 1)))"

fun row_from :: "'a list \<Rightarrow> 'a list \<Rightarrow> 'a list \<Rightarrow> nat list" where
  "row_from B A [] = [lev B A]"
| "row_from B A (x # as) = lev B A # row_from B (x # A) as"

text \<open>
  What the pair \<open>(closestWord, minDistance)\<close> of the scan says about the candidates seen
  so far: either none of them is within the budget, or the pair holds the word and the
  distance of the first candidate whose distance is the smallest.
\<close>

definition scanned :: "string \<Rightarrow> nat \<Rightarrow> (string \<times> string) list \<Rightarrow> closest \<Rightarrow> bool" where
  "scanned word maxDistance seen acc =
     (case acc of
        (None, None) \<Rightarrow>
          (\<forall>cand \<in> set seen. \<not> levenshteinDistance word (fst cand) \<le> maxDistance)
      | (Some c, Some d) \<Rightarrow>
          d \<le> maxDistance
          \<and> (\<exists>before cand after.
                seen = before @ cand # after
                \<and> snd cand = c \<and> levenshteinDistance word (fst cand) = d
                \<and> (\<forall>earlier \<in> set before. d < levenshteinDistance word (fst earlier))
                \<and> (\<forall>later \<in> set after. d \<le> levenshteinDistance word (fst later)))
      | _ \<Rightarrow> False)"

section \<open>Properties of the confidence smoother\<close>

lemmas smooth_eval =
  constructor_detector_def initialized_detector_def smoothGesture_def Let_def map_get_def
  decay_others_def isSimilarSwitch_def fistLikeGestures_def fingerGestures_def
  thumbOverlapGestures_def

text \<open>
  Claim C1. With \<open>minConfidenceFrames = 2\<close> and \<open>gestureDebounceTime = 100\<close>, feeding
  \<open>'K'\<close> on three consecutive ticks 200 ms apart from the constructor state is said to
  confirm \<open>'K'\<close> on the second tick. The code compares the counter as it was before the
  tick's own increment, so the first two ticks both return \<open>null\<close> and \<open>'K'\<close> is
  confirmed on the third tick.
\<close>

theorem three_K_ticks:
  "fst (feed [(1000, ''K''), (1200, ''K''), (1400, ''K'')] constructor_detector)
     = [None, None, Some ''K'']"
  by (simp add: smooth_eval)








text \<open>
  Switching inside a confusable group: once the counter of \<open>c\<close> has reached
  \<open>minConfidenceFrames\<close> before a tick, the tick confirms \<open>c\<close> whatever the time
  since the last change, and the counter of the previous gesture is reset to 0.
\<close>

lemma group_switch_skips_debounce:
  assumes "c \<noteq> lastGesture s" and "isSimilarSwitch c (lastGesture s)"
    and "minConfidenceFrames s \<le> map_get (gestureConfidence s) c"
  shows "fst (smoothGesture t c s) = Some c"
    and "lastGesture (snd (smoothGesture t c s)) = c"
    and "lastGestureTimestamp (snd (smoothGesture t c s)) = t"
    and "gestureConfidence (snd (smoothGesture t c s)) (lastGesture s) = Some 0"
proof -
  let ?m0 = "if gestureConfidence s c = None
             then (gestureConfidence s)(c \<mapsto> 0) else gestureConfidence s"
  have a: "map_get ?m0 c = map_get (gestureConfidence s) c"
    by (simp add: map_get_def split: option.splits)
  have b: "map_get (?m0(lastGesture s \<mapsto> 0)) c = map_get ?m0 c"
    using assms(1) by (simp add: map_get_def)
  show "fst (smoothGesture t c s) = Some c"
    using assms a b by (simp add: smoothGesture_def Let_def)
  show "lastGesture (snd (smoothGesture t c s)) = c"
    using assms a b by (simp add: smoothGesture_def Let_def)
  show "lastGestureTimestamp (snd (smoothGesture t c s)) = t"
    using assms a b by (simp add: smoothGesture_def Let_def)
  show "gestureConfidence (snd (smoothGesture t c s)) (lastGesture s) = Some 0"
    using assms a b by (simp add: smoothGesture_def Let_def decay_others_def)
qed

text \<open>
  Claim C3. With \<open>lastGesture = 'C'\<close>, feeding \<open>'E'\<close> (same fist-like group) for
  \<open>minConfidenceFrames\<close> consecutive ticks is said to confirm \<open>'E'\<close> at once, inside the
  debounce window. On the code, starting from the state in which \<open>'C'\<close> was just
  confirmed, the first \<open>'E'\<close> tick does reset the counter of \<open>'C'\<close> to 0, but the two
  ticks of \<open>'E'\<close> both return \<open>null\<close> and leave \<open>lastGesture = 'C'\<close>; \<open>'E'\<close> is
  confirmed by the third tick, 30 ms after the last change and so without debounce.
\<close>

theorem group_switch_needs_extra_tick:
  "lastGesture confirmed_C = ''C''
   \<and> gestureConfidence confirmed_C ''C'' = Some 3
   \<and> gestureConfidence (snd (smoothGesture 1410 ''E'' confirmed_C)) ''C'' = Some 0
   \<and> fst (feed [(1410, ''E''), (1420, ''E'')] confirmed_C) = [None, None]
   \<and> lastGesture (snd (feed [(1410, ''E''), (1420, ''E'')] confirmed_C)) = ''C''
   \<and> fst (feed [(1410, ''E''), (1420, ''E''), (1430, ''E'')] confirmed_C)
       = [None, None, Some ''E'']"
  by (simp add: confirmed_C_def smooth_eval)

section \<open>Properties of detectGesture and classifyGesture\<close>

text \<open>
  Claim C4. A frame without a hand is said to send the symbol \<open>'none'\<close> through the
  smoother, so that one such frame does not change the output at once. In the state
  where \<open>'K'\<close> is confirmed (a further \<open>'K'\<close> tick reports \<open>'K'\<close>), a frame without a
  hand reports \<open>'none'\<close> immediately, and the counter of \<open>'none'\<close> stays absent, whereas
  a tick of \<open>'none'\<close> through \<open>smoothGesture\<close> would have set it to 1.
\<close>

theorem no_hand_frame_not_smoothed:
  "lastGesture confirmed_K = ''K''
   \<and> fst (smoothGesture 1600 ''K'' confirmed_K) = Some ''K''
   \<and> gesture (the (fst (detectGesture 1800 True [] confirmed_K))) = Some ''none''
   \<and> gestureConfidence (snd (detectGesture 1800 True [] confirmed_K)) ''none'' = None
   \<and> gestureConfidence (snd (smoothGesture 1800 ''none'' confirmed_K)) ''none'' = Some 1"
  by (simp add: confirmed_K_def detectGesture_def smooth_eval)

text \<open>
  Claim C4, as the code has it: on an initialised detector with a ready video, a frame
  without a hand returns gesture \<open>'none'\<close> with confidence 0 at once, through the early
  return of \<open>detectGesture\<close>, and leaves the whole state of the smoother unchanged.
\<close>

theorem no_hand_frame_reports_none:
  assumes "isInitialized s" and "hasDetector s"
  shows "detectGesture t True [] s
           = (Some \<lparr>gesture = Some ''none'', confidence = Number 0\<rparr>, s)"
  using assms by (simp add: detectGesture_def)

theorem no_hand_frame_reports_none_witness:
  "isInitialized initialized_detector \<and> hasDetector initialized_detector
   \<and> detectGesture 1000 True [] initialized_detector
       = (Some \<lparr>gesture = Some ''none'', confidence = Number 0\<rparr>, initialized_detector)"
proof -
  have h1: "isInitialized initialized_detector" by (simp add: initialized_detector_def)
  have h2: "hasDetector initialized_detector" by (simp add: initialized_detector_def)
  from no_hand_frame_reports_none [OF h1 h2] h1 h2 show ?thesis by simp
qed

subsection \<open>Errors raised by the classifier\<close>

lemmas helper_defs =
  isThumbAcrossPalm_def isThumbToSide_def isThumbTouchingFingers_def isDShape_def
  isThumbInFront_def isCShape_def isFShape_def isOShape_def isGShape_def
  areFingersTogether_def isHShape_def isKShape_def isLShape_def isPShape_def isQShape_def
  isRShape_def isTShape_def isEShape_def isMShape_def isNShape_def isXShape_def
  tipBehind_def tipInFront_def depthClose_def distance2D_def getDirectionAngle_def
  js_atan2_def letter_if_def guarded_def negated_def

lemmas classify_eval =
  classifyGesture_def local_keypoints_def hand_of_names_def landmark_names_def Let_def
  minZ_of_def maxZ_of_def convert3D_def from2D_def toPixel_def js_or_def
  isFingerExtended_def nth_opt_def detectASLLetter_def

text \<open>
  The three thumb helpers run first in every call of \<open>detectASLLetter\<close>, and
  \<open>isThumbAcrossPalm\<close> reads \<open>keypoints[9].y\<close>: whatever the coordinates, a hand of
  at most 9 landmarks makes \<open>classifyGesture\<close> raise.
\<close>

lemma isThumbAcrossPalm_short: "length kps \<le> 9 \<Longrightarrow> isThumbAcrossPalm kps = Inl TypeError"
  by (simp add: isThumbAcrossPalm_def nth_opt_def split: option.splits)

lemma classifyGesture_short_hand:
  assumes "local_keypoints h = Some kps" and "length kps \<le> 9"
  shows "classifyGesture (h # hs) = Inl TypeError"
proof -
  have "isThumbAcrossPalm (map toPixel kps) = Inl TypeError"
    using assms(2) by (simp add: isThumbAcrossPalm_short)
  then show ?thesis
    using assms(1) by (simp add: classifyGesture_def detectASLLetter_def Let_def)
qed

text \<open>
  What the caller sees: the \<open>catch\<close> of \<open>detectGesture\<close> turns an error of
  \<open>classifyGesture\<close> into the result \<open>null\<close> for that frame, neither \<open>'unknown'\<close> nor
  \<open>'none'\<close>, and the smoother is not called.
\<close>

lemma detectGesture_catches:
  assumes "classifyGesture (h # hs) = Inl e" and "isInitialized s" and "hasDetector s"
  shows "detectGesture t True (h # hs) s = (None, s)"
  using assms by (simp add: detectGesture_def)

text \<open>
  Claim C9. Classification is said never to raise and to degrade to \<open>'unknown'\<close> or
  \<open>'none'\<close> on malformed or incomplete landmarks. Without a hand, and for a hand with
  no landmark at all, \<open>classifyGesture\<close> does return \<open>'none'\<close>, and a complete hand of
  21 three-dimensional landmarks (here all at one point) is classified, as \<open>'N'\<close>. But
  the shape helpers read their landmarks without the guard that \<open>isFingerExtended\<close>
  has: with the first 9 landmarks only, \<open>isThumbAcrossPalm\<close> raises a \<open>TypeError\<close> at
  \<open>keypoints[9].y\<close>; with the first 13, \<open>isMShape\<close> raises at \<open>keypoints[16].x\<close>. And
  a complete hand of 21 landmarks delivered as 2D \<open>keypoints\<close> only, which
  \<open>classifyGesture\<close> accepts on its fallback branch, has no \<open>z\<close>: the same closed
  hand reaches the rule for \<open>N\<close>, where \<open>isNShape\<close> raises at
  \<open>thumbTip.z.toFixed(3)\<close>, the call that \<open>isMShape\<close> guards.
\<close>

theorem classifyGesture_raises:
  "classifyGesture [] = Inr ''none''
   \<and> classifyGesture [empty_hand] = Inr ''none''
   \<and> classifyGesture [full_hand] = Inr ''N''
   \<and> classifyGesture [partial_hand] = Inl TypeError
   \<and> classifyGesture [thirteen_hand] = Inl TypeError
   \<and> classifyGesture [flat_hand_2D] = Inl TypeError
   \<and> isMShape (map toPixel (the (local_keypoints flat_hand_2D))) = Inr False
   \<and> isNShape (map toPixel (the (local_keypoints flat_hand_2D))) = Inl TypeError
   \<and> isNShape (map toPixel (the (local_keypoints full_hand))) = Inr True"
proof -
  have none: "classifyGesture [] = Inr ''none''"
    by (simp add: classifyGesture_def)
  have empty: "classifyGesture [empty_hand] = Inr ''none''"
    by (simp add: classifyGesture_def local_keypoints_def empty_hand_def)
  have full: "classifyGesture [full_hand] = Inr ''N''"
    by (simp add: full_hand_def classify_eval helper_defs)
  have partial: "classifyGesture [partial_hand] = Inl TypeError"
    by (simp add: partial_hand_def classify_eval helper_defs)
  have thirteen: "classifyGesture [thirteen_hand] = Inl TypeError"
    by (simp add: thirteen_hand_def classify_eval helper_defs)
  have flat: "classifyGesture [flat_hand_2D] = Inl TypeError"
    by (simp add: flat_hand_2D_def classify_eval helper_defs)
  have flatM: "isMShape (map toPixel (the (local_keypoints flat_hand_2D))) = Inr False"
    by (simp add: flat_hand_2D_def classify_eval helper_defs)
  have flatN: "isNShape (map toPixel (the (local_keypoints flat_hand_2D))) = Inl TypeError"
    by (simp add: flat_hand_2D_def classify_eval helper_defs)
  have fullN: "isNShape (map toPixel (the (local_keypoints full_hand))) = Inr True"
    by (simp add: full_hand_def classify_eval helper_defs)
  from none empty full partial thirteen flat flatM flatN fullN show ?thesis
    by simp
qed

section \<open>Properties of the sentence builder\<close>

lemmas builder_eval =
  run_def constructor_builder_def addLetter_def Let_def toUpperCase_def toLowerCase_def
  slice_last_def upper_letters_def lower_letters_def is_letter_def report_def

lemma word_aa_eq:
  "word_aa = \<lparr>currentWord = ''aa'', sentence = [], lastLetter = ''A'',
              lastLetterTimestamp = 13000, letterHoldTime = 1500\<rparr>"
  by (simp add: word_aa_def builder_eval)

lemma word_hi_eq:
  "word_hi = \<lparr>currentWord = ''hi'', sentence = [], lastLetter = ''I'',
              lastLetterTimestamp = 11000, letterHoldTime = 1500\<rparr>"
  by (simp add: word_hi_def builder_eval)

lemma autoCorrect_hi: "autoCorrect ''hi'' = JStr ''hi''"
  by (simp add: autoCorrect_def toLowerCase_def upper_letters_def lower_letters_def
      dict_get_def autoCorrectDict_def commonWords_def)

subsection \<open>Runs of three identical letters\<close>

lemma has_triple_snoc:
  "has_triple (w @ [c]) = (has_triple w \<or> slice_last 2 w = [c, c])"
proof (induction w rule: has_triple.induct)
  case (1 a b d cs)
  then show ?case by (cases cs) (auto simp: slice_last_def)
qed (auto simp: slice_last_def)

lemma has_triple_butlast: "\<not> has_triple w \<Longrightarrow> \<not> has_triple (butlast w)"
proof (cases "w = []")
  case False
  assume n: "\<not> has_triple w"
  from False have "w = butlast w @ [last w]" by simp
  then have "has_triple w
               = (has_triple (butlast w) \<or> slice_last 2 (butlast w) = [last w, last w])"
    using has_triple_snoc [of "butlast w" "last w"] by simp
  with n show ?thesis by simp
qed simp

lemma toLowerCase_single: "is_letter letter \<Longrightarrow> \<exists>c. toLowerCase letter = [c]"
  by (auto simp: is_letter_def toLowerCase_def split: list.splits)

lemma addSpace_word: "currentWord (snd (addSpace s)) = [] \<or> snd (addSpace s) = s"
  by (auto simp: addSpace_def Let_def split: sum.splits jsvalue.splits)

lemma addLetter_no_triple:
  assumes "\<not> has_triple (currentWord s)"
  shows "\<not> has_triple (currentWord (snd (addLetter letter now s)))"
proof -
  have sp: "\<not> has_triple (currentWord (snd (addSpace s)))"
    using addSpace_word [of s] assms by auto
  have bs: "\<not> has_triple (currentWord (snd (backspace s)))"
    using assms has_triple_butlast by (auto simp: backspace_def Let_def)
  have cl: "\<not> has_triple (currentWord (snd (clear s)))"
    by (simp add: clear_def Let_def)
  have app: "\<not> has_triple (currentWord s @ toLowerCase letter)"
    if "is_letter letter"
      and "slice_last 2 (currentWord s) \<noteq> toLowerCase letter @ toLowerCase letter"
  proof -
    from that(1) obtain c where c: "toLowerCase letter = [c]"
      using toLowerCase_single by blast
    with that(2) assms show ?thesis by (simp add: has_triple_snoc)
  qed
  show ?thesis
    using assms sp bs cl app
    by (auto simp: addLetter_def Let_def split: prod.splits)
qed

lemma apply_op_no_triple:
  "\<not> has_triple (currentWord s) \<Longrightarrow> \<not> has_triple (currentWord (apply_op o' s))"
proof (cases o')
  case (AddLetter l t)
  assume "\<not> has_triple (currentWord s)"
  then show ?thesis using AddLetter addLetter_no_triple by simp
next
  case AddSpace
  assume "\<not> has_triple (currentWord s)"
  then show ?thesis using AddSpace addSpace_word [of s] by auto
next
  case Backspace
  assume "\<not> has_triple (currentWord s)"
  then show ?thesis using Backspace has_triple_butlast by (auto simp: backspace_def Let_def)
qed (simp_all add: clear_def clearWord_def setSentence_def Let_def)

lemma run_no_triple:
  "\<not> has_triple (currentWord s) \<Longrightarrow> \<not> has_triple (currentWord (run ops s))"
  unfolding run_def
  by (induction ops arbitrary: s) (simp_all add: apply_op_no_triple)

lemma addLetter_rejects_triple:
  assumes "is_letter letter" and "\<not> has_triple (currentWord s)"
    and "has_triple (currentWord s @ toLowerCase letter)"
  shows "addLetter letter now s
           = (Inr (report s
                (if letter = toUpperCase (slice_last 1 (currentWord s))
                    \<and> now - lastLetterTimestamp s < 2000 then duplicate_blocked
                 else if letter = lastLetter s
                    \<and> now - lastLetterTimestamp s < letterHoldTime s then debounced
                 else triple_prevented)), s)"
proof -
  from assms(1) obtain c where c: "toLowerCase letter = [c]"
    using toLowerCase_single by blast
  with assms(2,3)
  have two: "slice_last 2 (currentWord s) = toLowerCase letter @ toLowerCase letter"
    by (simp add: has_triple_snoc)
  from assms(1) have ns: "letter \<noteq> ''SPACE''" "letter \<noteq> ''BACKSPACE''"
    "letter \<noteq> ''DELETE''" "letter \<noteq> ''CLEAR''"
    by (auto simp: is_letter_def)
  show ?thesis
    using assms(1) two ns by (auto simp: addLetter_def Let_def)
qed

text \<open>
  Claim C5. The word buffer is said never to hold three identical consecutive
  characters, an \<open>addLetter\<close> whose append would create such a run returning
  \<open>'triple_prevented'\<close>. With the word \<open>aa\<close> accepted at time 13000, a third \<open>'A'\<close> at
  13500 would create the run, and the call returns \<open>'duplicate_blocked'\<close>: the
  duplicate check runs first and its window of 2000 ms is still open.
\<close>

theorem third_repeat_duplicate_blocked:
  "has_triple (currentWord word_aa @ toLowerCase ''A'')
   \<and> fst (addLetter ''A'' 13500 word_aa)
       = Inr \<lparr>r_currentWord = ''aa'', r_sentence = [], r_action = duplicate_blocked,
              r_correctedWord = None\<rparr>"
  by (simp add: word_aa_eq addLetter_def Let_def toUpperCase_def toLowerCase_def
      slice_last_def upper_letters_def lower_letters_def report_def)

text \<open>
  Claim C5, as the code has it. After any sequence of calls on a new builder, followed by
  any sequence of \<open>addLetter\<close> calls, the word buffer holds no run of three identical
  characters. In every reachable state an \<open>addLetter\<close> of a letter whose append would
  create such a run is rejected and changes nothing (word, sentence, last letter and
  timestamp); its action is \<open>'duplicate_blocked'\<close> when the letter equals the upper-cased
  last character of the word less than 2000 ms after the last accepted letter, else
  \<open>'debounced'\<close> when it equals \<open>lastLetter\<close> within \<open>letterHoldTime\<close>, and
  \<open>'triple_prevented'\<close> otherwise.
\<close>

theorem triple_letter_invariant:
  "\<not> has_triple (currentWord
        (run (map (\<lambda>(letter, now). AddLetter letter now) calls) (run ops constructor_builder)))
   \<and> (is_letter letter
        \<and> has_triple (currentWord (run ops constructor_builder) @ toLowerCase letter)
      \<longrightarrow> addLetter letter now (run ops constructor_builder)
            = (Inr (report (run ops constructor_builder)
                 (if letter = toUpperCase (slice_last 1 (currentWord (run ops constructor_builder)))
                     \<and> now - lastLetterTimestamp (run ops constructor_builder) < 2000
                  then duplicate_blocked
                  else if letter = lastLetter (run ops constructor_builder)
                     \<and> now - lastLetterTimestamp (run ops constructor_builder)
                         < letterHoldTime (run ops constructor_builder)
                  then debounced
                  else triple_prevented)),
               run ops constructor_builder))"
proof -
  have init: "\<not> has_triple (currentWord constructor_builder)"
    by (simp add: constructor_builder_def)
  then have r: "\<not> has_triple (currentWord (run ops constructor_builder))"
    by (rule run_no_triple)
  then have "\<not> has_triple (currentWord
        (run (map (\<lambda>(letter, now). AddLetter letter now) calls) (run ops constructor_builder)))"
    by (rule run_no_triple)
  then show ?thesis using r addLetter_rejects_triple by blast
qed

theorem triple_letter_invariant_witness:
  "is_letter ''A'' \<and> has_triple (currentWord word_aa @ toLowerCase ''A'')
   \<and> addLetter ''A'' 20000 word_aa
       = (Inr \<lparr>r_currentWord = ''aa'', r_sentence = [], r_action = triple_prevented,
               r_correctedWord = None\<rparr>, word_aa)
   \<and> \<not> has_triple (currentWord (run [AddLetter ''A'' 20000] word_aa))"
proof -
  have l: "is_letter ''A''"
    by (simp add: is_letter_def upper_letters_def)
  have low: "toLowerCase ''A'' = ''a''" and up: "toUpperCase ''a'' = ''A''"
    by (simp_all add: toLowerCase_def toUpperCase_def upper_letters_def lower_letters_def)
  have t: "has_triple (currentWord word_aa @ toLowerCase ''A'')"
    by (simp add: word_aa_eq low)
  from triple_letter_invariant
         [of "[(''A'', 20000)]" "[AddLetter ''A'' 10000, AddLetter ''A'' 13000]" "''A''" 20000]
  have "\<not> has_triple (currentWord (run [AddLetter ''A'' 20000] word_aa))"
    and "addLetter ''A'' 20000 word_aa
       = (Inr (report word_aa
                 (if ''A'' = toUpperCase (slice_last 1 (currentWord word_aa))
                     \<and> 20000 - lastLetterTimestamp word_aa < 2000
                  then duplicate_blocked
                  else if ''A'' = lastLetter word_aa
                     \<and> 20000 - lastLetterTimestamp word_aa < letterHoldTime word_aa
                  then debounced
                  else triple_prevented)), word_aa)"
    using l t by (simp_all add: word_aa_def)
  then show ?thesis using l t
    by (simp add: word_aa_eq report_def slice_last_def up)
qed

subsection \<open>Repeating a letter inside the hold time\<close>

text \<open>
  Claim C6. After a successful \<open>addLetter('A')\<close> at \<open>t1\<close>, a second \<open>addLetter('A')\<close> at
  \<open>t2\<close> with \<open>t1 < t2 < t1 + 1500\<close> is said to return \<open>'debounced'\<close>. On a new builder,
  with \<open>t1 = 10000\<close> and \<open>t2 = 10500\<close>, the first call adds the letter and the action of
  the second is not \<open>'debounced'\<close>.
\<close>

theorem repeat_within_hold_time_not_debounced:
  "r_action (projr (fst (addLetter ''A'' 10000 constructor_builder))) = letter_added
   \<and> (10000 :: int) < 10500 \<and> (10500 :: int) - 10000 < 1500
   \<and> r_action (projr (fst (addLetter ''A'' 10500
                  (snd (addLetter ''A'' 10000 constructor_builder))))) \<noteq> debounced"
  by (simp add: builder_eval)

text \<open>
  Claim C6, as the code has it. In every state, after an \<open>addLetter('A')\<close> at \<open>t1\<close>
  that returned \<open>'letter_added'\<close>, a second \<open>addLetter('A')\<close> at \<open>t2\<close> with
  \<open>t1 < t2 < t1 + 1500\<close> is rejected with \<open>'duplicate_blocked'\<close>, by the duplicate check
  that precedes the debounce, and leaves the builder (word buffer included) unchanged.
\<close>

theorem repeat_within_hold_time:
  assumes "fst (addLetter ''A'' t1 s) = Inr r" and "r_action r = letter_added"
    and "t1 < t2" and "t2 - t1 < 1500"
  shows "addLetter ''A'' t2 (snd (addLetter ''A'' t1 s))
           = (Inr (report (snd (addLetter ''A'' t1 s)) duplicate_blocked),
              snd (addLetter ''A'' t1 s))"
proof -
  have up: "toUpperCase ''a'' = ''A''" and low: "toLowerCase ''A'' = ''a''"
    and le: "is_letter ''A''"
    by (simp_all add: toUpperCase_def toLowerCase_def upper_letters_def lower_letters_def
        is_letter_def)
  have added: "snd (addLetter ''A'' t1 s)
                 = s\<lparr>currentWord := currentWord s @ ''a'', lastLetter := ''A'',
                      lastLetterTimestamp := t1\<rparr>"
    using assms(1,2) by (auto simp: addLetter_def Let_def low le report_def split: if_splits)
  show ?thesis
    unfolding added using assms(4)
    by (simp add: addLetter_def Let_def slice_last_def up)
qed

theorem repeat_within_hold_time_witness:
  "fst (addLetter ''A'' 10000 constructor_builder)
     = Inr \<lparr>r_currentWord = ''a'', r_sentence = [], r_action = letter_added,
            r_correctedWord = None\<rparr>
   \<and> fst (addLetter ''A'' 10500 (snd (addLetter ''A'' 10000 constructor_builder)))
       = Inr \<lparr>r_currentWord = ''a'', r_sentence = [], r_action = duplicate_blocked,
              r_correctedWord = None\<rparr>"
proof -
  have h1: "fst (addLetter ''A'' 10000 constructor_builder)
     = Inr \<lparr>r_currentWord = ''a'', r_sentence = [], r_action = letter_added,
            r_correctedWord = None\<rparr>"
    by (simp add: builder_eval)
  have s1: "snd (addLetter ''A'' 10000 constructor_builder)
     = \<lparr>currentWord = ''a'', sentence = [], lastLetter = ''A'',
              lastLetterTimestamp = 10000, letterHoldTime = 1500\<rparr>"
    by (simp add: builder_eval)
  from repeat_within_hold_time [OF h1, of 10500] h1 s1 show ?thesis
    by (simp add: report_def)
qed

subsection \<open>addSpace followed by backspace\<close>

lemma split_space_not_Nil: "split_space s \<noteq> []"
  by (induction s) (auto split: list.splits)

lemma split_space_no_space: "CHR '' '' \<notin> set w \<Longrightarrow> split_space w = [w]"
  by (induction w) auto

lemma split_space_append:
  "CHR '' '' \<notin> set w \<Longrightarrow> split_space (s @ CHR '' '' # w) = split_space s @ [w]"
proof (induction s)
  case Nil
  then show ?case by (simp add: split_space_no_space)
next
  case (Cons c cs)
  then show ?case
    using split_space_not_Nil [of cs] by (auto split: list.splits)
qed

lemma join_space_Cons: "ws \<noteq> [] \<Longrightarrow> join_space (w # ws) = w @ CHR '' '' # join_space ws"
  by (cases ws) auto

lemma join_split_space: "join_space (split_space s) = s"
proof (induction s)
  case Nil
  then show ?case by simp
next
  case (Cons c cs)
  show ?case
  proof (cases "c = CHR '' ''")
    case True
    then show ?thesis
      using Cons split_space_not_Nil [of cs] by (simp add: join_space_Cons)
  next
    case False
    obtain w ws where sp: "split_space cs = w # ws"
      using split_space_not_Nil [of cs] by (cases "split_space cs") auto
    show ?thesis
    proof (cases ws)
      case Nil
      with False sp Cons show ?thesis by simp
    next
      case (Cons a list)
      with False sp \<open>join_space (split_space cs) = cs\<close> show ?thesis by simp
    qed
  qed
qed

lemma toUpperCase_no_space:
  "CHR '' '' \<notin> set w \<Longrightarrow> CHR '' '' \<notin> set (toUpperCase w)"
  by (induction w) (auto simp: toUpperCase_def upper_letters_def lower_letters_def split: option.splits if_splits)

text \<open>
  Claim C7, as the code has it. For every non-empty word buffer \<open>w\<close> without a space
  that \<open>autoCorrect\<close> returns unchanged, \<open>addSpace\<close> completes the word (no corrected
  word is reported) and an immediate \<open>backspace\<close> deletes it again from the sentence
  (\<open>'word_deleted'\<close>): the sentence is back at its value before the space, and the word
  buffer is empty; the word is not put back into it.
\<close>

theorem addSpace_then_backspace:
  assumes "currentWord s = w" and "w \<noteq> []" and "autoCorrect w = JStr w"
    and "CHR '' '' \<notin> set w"
  shows "(case fst (addSpace s) of
            Inr r \<Rightarrow> r_action r = word_completed \<and> r_correctedWord r = None
          | Inl e \<Rightarrow> False)
         \<and> r_action (fst (backspace (snd (addSpace s)))) = word_deleted
         \<and> currentWord (snd (backspace (snd (addSpace s)))) = []
         \<and> sentence (snd (backspace (snd (addSpace s)))) = sentence s"
proof (cases "sentence s = []")
  case True
  define cap where "cap = toUpperCase (take 1 w) @ drop 1 w"
  have ns: "CHR '' '' \<notin> set cap"
    unfolding cap_def using assms(4) toUpperCase_no_space [of "take 1 w"]
    by (auto dest: in_set_takeD in_set_dropD)
  have ne: "cap \<noteq> []"
    unfolding cap_def using assms(2) by (cases w) (auto simp: toUpperCase_def)
  have a: "addSpace s
             = (Inr \<lparr> r_currentWord = [], r_sentence = cap, r_action = word_completed,
                      r_correctedWord = None \<rparr>,
                s\<lparr>sentence := cap, currentWord := [], lastLetter := []\<rparr>)"
    using assms True by (simp add: addSpace_def Let_def cap_def)
  show ?thesis
    unfolding a using True ne split_space_no_space [OF ns]
    by (simp add: backspace_def Let_def report_def)
next
  case False
  define sen where "sen = sentence s @ '' '' @ w"
  have a: "addSpace s
             = (Inr \<lparr> r_currentWord = [], r_sentence = sen, r_action = word_completed,
                      r_correctedWord = None \<rparr>,
                s\<lparr>sentence := sen, currentWord := [], lastLetter := []\<rparr>)"
    using assms False by (simp add: addSpace_def Let_def sen_def)
  have j: "join_space (butlast (split_space sen)) = sentence s"
    unfolding sen_def using split_space_append [OF assms(4), of "sentence s"]
    by (simp add: join_split_space)
  have ne: "sen \<noteq> []" by (simp add: sen_def)
  show ?thesis
    unfolding a using j ne by (simp add: backspace_def Let_def report_def)
qed

theorem addSpace_then_backspace_witness:
  "currentWord word_hi = ''hi'' \<and> autoCorrect ''hi'' = JStr ''hi''
   \<and> r_action (fst (backspace (snd (addSpace word_hi)))) = word_deleted
   \<and> currentWord (snd (backspace (snd (addSpace word_hi)))) = []
   \<and> sentence (snd (backspace (snd (addSpace word_hi)))) = sentence word_hi"
proof -
  have h1: "currentWord word_hi = ''hi''" by (simp add: word_hi_eq)
  have h2: "''hi'' \<noteq> []" by simp
  have h4: "CHR '' '' \<notin> set ''hi''" by simp
  from addSpace_then_backspace [OF h1 h2 autoCorrect_hi h4] h1 autoCorrect_hi
  show ?thesis by simp
qed

text \<open>
  Claim C7. After \<open>addSpace\<close> and an immediate \<open>backspace\<close> the word buffer is said to
  equal the word before the space, when \<open>autoCorrect\<close> leaves that word unchanged. With
  the word \<open>hi\<close> typed into a new builder, \<open>addSpace\<close> makes the sentence \<open>Hi\<close> and
  the \<open>backspace\<close> that follows does not leave \<open>hi\<close> in the word buffer.
\<close>

theorem addSpace_then_backspace_loses_word:
  "currentWord word_hi = ''hi'' \<and> autoCorrect ''hi'' = JStr ''hi''
   \<and> sentence (snd (addSpace word_hi)) = ''Hi''
   \<and> currentWord (snd (backspace (snd (addSpace word_hi)))) \<noteq> ''hi''"
  by (simp add: word_hi_eq autoCorrect_hi addSpace_def backspace_def Let_def
      toUpperCase_def upper_letters_def lower_letters_def)

subsection \<open>levenshteinDistance computes the edit distance\<close>

text \<open>
  \<open>lev\<close> is an edit script and no edit script is shorter, so \<open>lev\<close> is the edit
  distance; the rows that \<open>fill_rows\<close> builds are rows of \<open>lev\<close> on the reversed
  prefixes, and the edit distance is invariant under reversal and symmetric.
\<close>

lemma lev_Nil2 [simp]: "lev xs [] = length xs"
  by (cases xs) simp_all

lemma edits_insert_all: "edits (length ys) [] ys"
proof (induction ys)
  case Nil
  show ?case by (simp add: edits_Nil)
next
  case (Cons y ys)
  then show ?case by (simp add: edits_insert)
qed

lemma edits_delete_all: "edits (length xs) xs []"
proof (induction xs)
  case Nil
  show ?case by (simp add: edits_Nil)
next
  case (Cons x xs)
  then show ?case by (simp add: edits_delete)
qed

lemma lev_edits: "edits (lev xs ys) xs ys"
proof (induction xs ys rule: lev.induct)
  case (1 ys)
  show ?case by (simp add: edits_insert_all)
next
  case (2 x xs)
  show ?case using edits_delete_all [of "x # xs"] by simp
next
  case (3 x xs y ys)
  show ?case
  proof (cases "x = y")
    case True
    with 3 have "edits (lev xs ys) xs ys" by simp
    then have "edits (lev xs ys) (x # xs) (x # ys)" by (rule edits_keep)
    with True show ?thesis by simp
  next
    case False
    with 3 have a: "edits (lev xs ys) xs ys" and b: "edits (lev (x # xs) ys) (x # xs) ys"
      and c: "edits (lev xs (y # ys)) xs (y # ys)"
      by simp_all
    have a': "edits (Suc (lev xs ys)) (x # xs) (y # ys)"
      using a by (rule edits_subst)
    have b': "edits (Suc (lev (x # xs) ys)) (x # xs) (y # ys)"
      using b by (rule edits_insert)
    have c': "edits (Suc (lev xs (y # ys))) (x # xs) (y # ys)"
      using c by (rule edits_delete)
    have "lev (x # xs) (y # ys) = Suc (lev xs ys)
          \<or> lev (x # xs) (y # ys) = Suc (lev (x # xs) ys)
          \<or> lev (x # xs) (y # ys) = Suc (lev xs (y # ys))"
      using False by (simp add: min_def)
    with a' b' c' show ?thesis by metis
  qed
qed


lemma edits_length:
  "edits n xs ys \<Longrightarrow> length ys \<le> length xs + n \<and> length xs \<le> length ys + n"
  by (induction rule: edits.induct) simp_all

lemma edits_sym: "edits n xs ys \<Longrightarrow> edits n ys xs"
proof (induction rule: edits.induct)
  case edits_Nil
  show ?case by (rule edits.edits_Nil)
next
  case (edits_keep n xs ys x)
  then show ?case by (simp add: edits.edits_keep)
next
  case (edits_subst n xs ys x y)
  then show ?case by (simp add: edits.edits_subst)
next
  case (edits_delete n xs ys x)
  then show ?case by (simp add: edits.edits_insert)
next
  case (edits_insert n xs ys y)
  then show ?case by (simp add: edits.edits_delete)
qed

lemma edits_drop_target:
  "edits m xs zs \<Longrightarrow> zs = y # ys \<Longrightarrow> \<exists>m'. m' \<le> Suc m \<and> edits m' xs ys"
proof (induction arbitrary: y ys rule: edits.induct)
  case edits_Nil
  then show ?case by simp
next
  case (edits_keep n xs zs x)
  from edits_keep.prems have z: "zs = ys" by simp
  from edits_keep.hyps z have "edits (Suc n) (x # xs) ys"
    by (simp add: edits.edits_delete)
  then show ?case by (intro exI [of _ "Suc n"]) simp
next
  case (edits_subst n xs zs x z)
  from edits_subst.prems have z: "zs = ys" by simp
  from edits_subst.hyps z have "edits (Suc n) (x # xs) ys"
    by (simp add: edits.edits_delete)
  then show ?case by (intro exI [of _ "Suc n"]) simp
next
  case (edits_delete n xs zs x)
  from edits_delete.IH [OF edits_delete.prems]
  obtain m' where m: "m' \<le> Suc n" and e: "edits m' xs ys" by blast
  from e have "edits (Suc m') (x # xs) ys" by (rule edits.edits_delete)
  with m show ?case by (intro exI [of _ "Suc m'"]) simp
next
  case (edits_insert n xs zs z)
  from edits_insert.prems have z: "zs = ys" by simp
  from edits_insert.hyps z have "edits n xs ys" by simp
  then show ?case by (intro exI [of _ n]) simp
qed

lemma edits_drop_source:
  assumes "edits m (x # xs) ys"
  shows "\<exists>m'. m' \<le> Suc m \<and> edits m' xs ys"
proof -
  from assms have "edits m ys (x # xs)" by (rule edits_sym)
  from edits_drop_target [OF this refl]
  obtain m' where "m' \<le> Suc m" and "edits m' ys xs" by blast
  then have "m' \<le> Suc m \<and> edits m' xs ys" by (simp add: edits_sym)
  then show ?thesis by (rule exI)
qed


lemma edits_Cons_cases:
  assumes "edits n (x # xs) (y # ys)"
  shows "(x = y \<and> edits n xs ys)
         \<or> (\<exists>m. n = Suc m \<and> (edits m xs ys \<or> edits m xs (y # ys) \<or> edits m (x # xs) ys))"
  using assms by (cases rule: edits.cases) simp_all

lemma lev_least: "edits n xs ys \<Longrightarrow> lev xs ys \<le> n"
proof (induction xs ys arbitrary: n rule: lev.induct)
  case (1 ys)
  from edits_length [OF "1.prems"] show ?case by simp
next
  case (2 x xs)
  from edits_length [OF "2.prems"] show ?case by simp
next
  case (3 x xs y ys)
  show ?case
  proof (cases "x = y")
    case True
    have ih: "\<And>k. edits k xs ys \<Longrightarrow> lev xs ys \<le> k"
      using "3.IH"(1) [OF True] .
    from edits_Cons_cases [OF "3.prems"]
    consider "edits n xs ys"
      | m where "n = Suc m" "edits m xs ys"
      | m where "n = Suc m" "edits m xs (y # ys)"
      | m where "n = Suc m" "edits m (x # xs) ys"
      by blast
    then have "lev xs ys \<le> n"
    proof cases
      case 1
      then show ?thesis by (rule ih)
    next
      case 2
      from ih [OF 2(2)] 2(1) show ?thesis by simp
    next
      case 3
      from edits_drop_target [OF 3(2) refl]
      obtain m' where "m' \<le> Suc m" and "edits m' xs ys" by blast
      with ih [of m'] 3(1) show ?thesis by simp
    next
      case 4
      from edits_drop_source [OF 4(2)]
      obtain m' where "m' \<le> Suc m" and "edits m' xs ys" by blast
      with ih [of m'] 4(1) show ?thesis by simp
    qed
    with True show ?thesis by simp
  next
    case False
    have ih1: "\<And>k. edits k xs ys \<Longrightarrow> lev xs ys \<le> k"
      and ih2: "\<And>k. edits k (x # xs) ys \<Longrightarrow> lev (x # xs) ys \<le> k"
      and ih3: "\<And>k. edits k xs (y # ys) \<Longrightarrow> lev xs (y # ys) \<le> k"
      using "3.IH"(2-4) [OF False] by blast+
    from edits_Cons_cases [OF "3.prems"] False
    consider m where "n = Suc m" "edits m xs ys"
      | m where "n = Suc m" "edits m xs (y # ys)"
      | m where "n = Suc m" "edits m (x # xs) ys"
      by blast
    then show ?thesis
    proof cases
      case 1
      from ih1 [OF 1(2)] 1(1) False show ?thesis by simp
    next
      case 2
      from ih3 [OF 2(2)] 2(1) False show ?thesis by simp
    next
      case 3
      from ih2 [OF 3(2)] 3(1) False show ?thesis by simp
    qed
  qed
qed

lemma lev_edit_distance: "lev xs ys = edit_distance xs ys"
  unfolding edit_distance_def
proof (rule Least_equality [symmetric])
  show "edits (lev xs ys) xs ys" by (rule lev_edits)
next
  fix n
  assume "edits n xs ys"
  then show "lev xs ys \<le> n" by (rule lev_least)
qed

lemma edits_snoc_keep: "edits n xs ys \<Longrightarrow> edits n (xs @ [z]) (ys @ [z])"
proof (induction rule: edits.induct)
  case edits_Nil
  show ?case using edits.edits_keep [OF edits.edits_Nil] by simp
qed (simp_all add: edits.intros)

lemma edits_snoc_subst: "edits n xs ys \<Longrightarrow> edits (Suc n) (xs @ [x]) (ys @ [y])"
proof (induction rule: edits.induct)
  case edits_Nil
  show ?case using edits.edits_subst [OF edits.edits_Nil] by simp
qed (simp_all add: edits.intros)

lemma edits_snoc_delete: "edits n xs ys \<Longrightarrow> edits (Suc n) (xs @ [x]) ys"
proof (induction rule: edits.induct)
  case edits_Nil
  show ?case using edits.edits_delete [OF edits.edits_Nil] by simp
qed (simp_all add: edits.intros)

lemma edits_snoc_insert: "edits n xs ys \<Longrightarrow> edits (Suc n) xs (ys @ [y])"
proof (induction rule: edits.induct)
  case edits_Nil
  show ?case using edits.edits_insert [OF edits.edits_Nil] by simp
qed (simp_all add: edits.intros)

lemma edits_rev: "edits n xs ys \<Longrightarrow> edits n (rev xs) (rev ys)"
proof (induction rule: edits.induct)
  case edits_Nil
  show ?case by (simp add: edits.edits_Nil)
qed (simp_all add: edits_snoc_keep edits_snoc_subst edits_snoc_delete edits_snoc_insert)

lemma edits_rev_iff: "edits n (rev xs) (rev ys) = edits n xs ys"
  using edits_rev [of n xs ys] edits_rev [of n "rev xs" "rev ys"] by auto

lemma edits_sym_iff: "edits n ys xs = edits n xs ys"
  using edits_sym [of n xs ys] edits_sym [of n ys xs] by auto

lemma edit_distance_rev: "edit_distance (rev xs) (rev ys) = edit_distance xs ys"
  by (simp add: edit_distance_def edits_rev_iff)

lemma edit_distance_sym: "edit_distance ys xs = edit_distance xs ys"
  by (simp add: edit_distance_def edits_sym_iff)

text \<open>The rows of the matrix.\<close>

lemma row_from_head: "row_from B A as = lev B A # tl (row_from B A as)"
  by (cases as) simp_all

lemma fill_row_row_from:
  "fill_row bc as (row_from B A as) (lev (bc # B) A) = tl (row_from (bc # B) A as)"
proof (induction as arbitrary: A)
  case Nil
  show ?case by simp
next
  case (Cons x as)
  obtain r where h: "row_from B (x # A) as = lev B (x # A) # r"
    using row_from_head by blast
  have "fill_row bc (x # as) (row_from B A (x # as)) (lev (bc # B) A)
        = fill_row bc (x # as) (lev B A # lev B (x # A) # r) (lev (bc # B) A)"
    by (simp add: h)
  also have "\<dots> = lev (bc # B) (x # A)
          # fill_row bc as (lev B (x # A) # r) (lev (bc # B) (x # A))"
    by (simp add: Let_def)
  also have "\<dots> = lev (bc # B) (x # A)
          # fill_row bc as (row_from B (x # A) as) (lev (bc # B) (x # A))"
    by (simp only: h)
  also have "\<dots> = lev (bc # B) (x # A) # tl (row_from (bc # B) (x # A) as)"
    by (simp only: Cons.IH)
  also have "\<dots> = row_from (bc # B) (x # A) as"
    by (rule row_from_head [symmetric])
  finally show ?case by simp
qed

lemma next_row: "Suc (length B) # fill_row bc a (row_from B [] a) (Suc (length B))
                   = row_from (bc # B) [] a"
proof -
  have "fill_row bc a (row_from B [] a) (lev (bc # B) [])  = tl (row_from (bc # B) [] a)"
    by (rule fill_row_row_from)
  then have "Suc (length B) # fill_row bc a (row_from B [] a) (Suc (length B))
               = lev (bc # B) [] # tl (row_from (bc # B) [] a)"
    by simp
  then show ?thesis using row_from_head [of "bc # B" "[]" a] by simp
qed

lemma fill_rows_row_from:
  "fill_rows bs a (row_from B [] a) (Suc (length B)) = row_from (rev bs @ B) [] a"
proof (induction bs arbitrary: B)
  case Nil
  show ?case by simp
next
  case (Cons bc bs)
  have "fill_rows (bc # bs) a (row_from B [] a) (Suc (length B))
          = fill_rows bs a (row_from (bc # B) [] a) (Suc (length (bc # B)))"
    by (simp add: next_row)
  also have "\<dots> = row_from (rev bs @ bc # B) [] a"
    by (rule Cons.IH)
  finally show ?case by simp
qed

lemma row_from_Nil: "row_from [] A as = [length A ..< Suc (length A + length as)]"
proof (induction as arbitrary: A)
  case Nil
  show ?case by simp
next
  case (Cons x as)
  have "[length A ..< Suc (length A + length (x # as))]
          = length A # [Suc (length A) ..< Suc (length A + length (x # as))]"
    by (rule upt_conv_Cons) simp
  also have "\<dots> = length A # row_from [] (x # A) as"
    using Cons [of "x # A"] by simp
  finally show ?case by simp
qed

lemma last_row_from: "last (row_from B A as) = lev B (rev as @ A)"
proof (induction as arbitrary: A)
  case Nil
  show ?case by simp
next
  case (Cons x as)
  have "row_from B (x # A) as \<noteq> []" by (subst row_from_head) simp
  then show ?case using Cons [of "x # A"] by simp
qed

lemma levenshteinDistance_lev: "levenshteinDistance a b = lev (rev b) (rev a)"
proof (cases "a = [] \<or> b = []")
  case True
  then show ?thesis by (auto simp: levenshteinDistance_def)
next
  case False
  have "fill_rows b a [0 ..< Suc (length a)] 1 = fill_rows b a (row_from [] [] a) (Suc (length ([] :: char list)))"
    by (simp add: row_from_Nil)
  also have "\<dots> = row_from (rev b @ []) [] a"
    by (rule fill_rows_row_from)
  finally have "last (fill_rows b a [0 ..< Suc (length a)] 1) = lev (rev b) (rev a)"
    by (simp add: last_row_from)
  with False show ?thesis by (simp add: levenshteinDistance_def)
qed

lemma levenshteinDistance_edit_distance:
  "levenshteinDistance a b = edit_distance a b"
proof -
  have "levenshteinDistance a b = edit_distance (rev b) (rev a)"
    by (simp add: levenshteinDistance_lev lev_edit_distance)
  also have "\<dots> = edit_distance b a" by (rule edit_distance_rev)
  also have "\<dots> = edit_distance a b" by (rule edit_distance_sym)
  finally show ?thesis .
qed

lemma edits_zero: "edits n xs ys \<Longrightarrow> n = 0 \<Longrightarrow> xs = ys"
  by (induction rule: edits.induct) simp_all

lemma edits_refl: "edits 0 xs xs"
proof (induction xs)
  case Nil
  show ?case by (rule edits.edits_Nil)
next
  case (Cons x xs)
  then show ?case by (rule edits.edits_keep)
qed

lemma edit_distance_zero_iff: "edit_distance xs ys = 0 \<longleftrightarrow> xs = ys"
proof
  assume z: "edit_distance xs ys = 0"
  have "edits (edit_distance xs ys) xs ys"
    using lev_edits [of xs ys] by (simp add: lev_edit_distance)
  with z show "xs = ys" using edits_zero by fastforce
next
  assume "xs = ys"
  then have "edits 0 xs ys" by (simp add: edits_refl)
  then have "lev xs ys \<le> 0" by (rule lev_least)
  then show "edit_distance xs ys = 0" by (simp add: lev_edit_distance)
qed

subsection \<open>The fuzzy pass of autoCorrect\<close>

lemma scanned_step:
  assumes "scanned word m seen acc"
  shows "scanned word m (seen @ [cand]) (scan_step word m acc cand)"
proof (cases acc)
  case (Pair cw md)
  show ?thesis
  proof (cases cw)
    case None
    show ?thesis
    proof (cases md)
      case None
      note mdNone = this
      show ?thesis
      proof (cases "levenshteinDistance word (fst cand) \<le> m")
        case True
        have "seen @ [cand] = seen @ cand # []" by simp
        moreover have "\<forall>earlier \<in> set seen.
            levenshteinDistance word (fst cand) < levenshteinDistance word (fst earlier)"
          using assms Pair \<open>cw = None\<close> mdNone True by (auto simp: scanned_def)
        ultimately have "\<exists>before c' after.
                seen @ [cand] = before @ c' # after
                \<and> snd c' = snd cand
                \<and> levenshteinDistance word (fst c') = levenshteinDistance word (fst cand)
                \<and> (\<forall>earlier \<in> set before.
                      levenshteinDistance word (fst cand)
                        < levenshteinDistance word (fst earlier))
                \<and> (\<forall>later \<in> set after.
                      levenshteinDistance word (fst cand)
                        \<le> levenshteinDistance word (fst later))"
          by (intro exI [of _ seen] exI [of _ cand] exI [of _ "[]"]) simp
        with True Pair \<open>cw = None\<close> mdNone show ?thesis
          by (simp add: scanned_def scan_step_def Let_def)
      next
        case False
        with assms Pair \<open>cw = None\<close> mdNone show ?thesis
          by (auto simp: scanned_def scan_step_def Let_def)
      qed
    next
      case (Some d)
      with assms Pair \<open>cw = None\<close> show ?thesis by (simp add: scanned_def)
    qed
  next
    case (Some c)
    note cwSome = this
    show ?thesis
    proof (cases md)
      case None
      with assms Pair cwSome show ?thesis by (simp add: scanned_def)
    next
      case (Some d)
      from assms Pair cwSome Some obtain before c' after where
        dm: "d \<le> m" and s: "seen = before @ c' # after" and v: "snd c' = c"
        and dd: "levenshteinDistance word (fst c') = d"
        and e: "\<forall>earlier \<in> set before. d < levenshteinDistance word (fst earlier)"
        and l: "\<forall>later \<in> set after. d \<le> levenshteinDistance word (fst later)"
        by (auto simp: scanned_def)
      show ?thesis
      proof (cases "levenshteinDistance word (fst cand) \<le> m
                    \<and> levenshteinDistance word (fst cand) < d")
        case True
        have all: "\<forall>earlier \<in> set seen.
            levenshteinDistance word (fst cand) < levenshteinDistance word (fst earlier)"
          using True s dd e l by fastforce
        have "\<exists>before c'' after.
                seen @ [cand] = before @ c'' # after
                \<and> snd c'' = snd cand
                \<and> levenshteinDistance word (fst c'') = levenshteinDistance word (fst cand)
                \<and> (\<forall>earlier \<in> set before.
                      levenshteinDistance word (fst cand)
                        < levenshteinDistance word (fst earlier))
                \<and> (\<forall>later \<in> set after.
                      levenshteinDistance word (fst cand)
                        \<le> levenshteinDistance word (fst later))"
          using all by (intro exI [of _ seen] exI [of _ cand] exI [of _ "[]"]) simp
        with True Pair cwSome Some show ?thesis
          by (simp add: scanned_def scan_step_def Let_def)
      next
        case False
        then have ge: "d \<le> levenshteinDistance word (fst cand)"
          using dm by linarith
        have "\<exists>before' c'' after'.
                seen @ [cand] = before' @ c'' # after'
                \<and> snd c'' = c \<and> levenshteinDistance word (fst c'') = d
                \<and> (\<forall>earlier \<in> set before'. d < levenshteinDistance word (fst earlier))
                \<and> (\<forall>later \<in> set after'. d \<le> levenshteinDistance word (fst later))"
          using s v dd e l ge
          by (intro exI [of _ before] exI [of _ c'] exI [of _ "after @ [cand]"]) simp
        with False dm Pair cwSome Some show ?thesis
          by (auto simp: scanned_def scan_step_def Let_def)
      qed
    qed
  qed
qed


lemma scanned_foldl:
  "scanned word m seen acc \<Longrightarrow> scanned word m (seen @ cands) (foldl (scan_step word m) acc cands)"
proof (induction cands arbitrary: seen acc)
  case Nil
  then show ?case by simp
next
  case (Cons cand cands)
  from Cons.prems have "scanned word m (seen @ [cand]) (scan_step word m acc cand)"
    by (rule scanned_step)
  from Cons.IH [OF this] show ?case by simp
qed

lemma findClosestWord_foldl:
  "3 \<le> length word \<Longrightarrow>
   findClosestWord word
     = fst (foldl (scan_step word (maxDistance_of word)) (None, None) candidates)"
  by (simp add: findClosestWord_def candidates_def Let_def)

lemma findClosestWord_scanned:
  assumes "3 \<le> length word"
  shows "\<exists>md. scanned word (maxDistance_of word) candidates (findClosestWord word, md)"
proof -
  have "scanned word (maxDistance_of word) [] (None, None)"
    by (simp add: scanned_def)
  from scanned_foldl [OF this, of candidates]
  have "scanned word (maxDistance_of word) candidates
          (foldl (scan_step word (maxDistance_of word)) (None, None) candidates)"
    by simp
  then show ?thesis
    using findClosestWord_foldl [OF assms] by (metis prod.collapse)
qed

lemma maxDistance_of_ceiling:
  "int (maxDistance_of word) = \<lceil>0.4 * real (length word)\<rceil>"
proof -
  have "(0.4 :: real) * real (length word) = of_int (2 * int (length word)) / of_int 5"
    by simp
  then have "\<lceil>(0.4 :: real) * real (length word)\<rceil> = - (- (2 * int (length word)) div 5)"
    by (simp only: ceiling_divide_eq_div)
  also have "\<dots> = int ((2 * length word + 4) div 5)"
    by (simp add: zdiv_int)
  finally show ?thesis by (simp add: maxDistance_of_def)
qed

lemma within_budget:
  "(levenshteinDistance word k \<le> maxDistance_of word)
     = (int (edit_distance word k) \<le> \<lceil>0.4 * real (length word)\<rceil>)"
proof -
  have "(levenshteinDistance word k \<le> maxDistance_of word)
          = (int (levenshteinDistance word k) \<le> int (maxDistance_of word))"
    by simp
  then show ?thesis
    by (simp only: maxDistance_of_ceiling levenshteinDistance_edit_distance)
qed

text \<open>Once the scan holds a candidate at distance 1, only the word itself replaces it.\<close>

lemma scan_one_fixed:
  "\<forall>cand \<in> set cands. fst cand \<noteq> word \<Longrightarrow>
   foldl (scan_step word m) (Some v, Some (Suc 0)) cands = (Some v, Some (Suc 0))"
proof (induction cands)
  case Nil
  show ?case by simp
next
  case (Cons cand cands)
  from Cons.prems have "fst cand \<noteq> word" by simp
  then have "levenshteinDistance word (fst cand) \<noteq> 0"
    by (simp add: levenshteinDistance_edit_distance edit_distance_zero_iff)
  then have "scan_step word m (Some v, Some (Suc 0)) cand = (Some v, Some (Suc 0))"
    by (simp add: scan_step_def Let_def)
  with Cons show ?case by simp
qed

lemma fuzzy_result:
  assumes "findClosestWord word = Some c"
  shows "3 \<le> length word
        \<and> (\<exists>before cand after.
              candidates = before @ cand # after
              \<and> snd cand = c
              \<and> int (edit_distance word (fst cand)) \<le> \<lceil>0.4 * real (length word)\<rceil>
              \<and> (\<forall>earlier \<in> set before.
                    edit_distance word (fst cand) < edit_distance word (fst earlier))
              \<and> (\<forall>later \<in> set after.
                    edit_distance word (fst cand) \<le> edit_distance word (fst later)))"
proof -
  from assms have len: "3 \<le> length word"
    by (auto simp: findClosestWord_def split: if_splits)
  then obtain md where "scanned word (maxDistance_of word) candidates (Some c, md)"
    using findClosestWord_scanned assms by metis
  then obtain d before cand after where
    dm: "d \<le> maxDistance_of word" and s: "candidates = before @ cand # after"
    and v: "snd cand = c" and dd: "levenshteinDistance word (fst cand) = d"
    and e: "\<forall>earlier \<in> set before. d < levenshteinDistance word (fst earlier)"
    and l: "\<forall>later \<in> set after. d \<le> levenshteinDistance word (fst later)"
    by (cases md) (auto simp: scanned_def)
  from dm dd have "levenshteinDistance word (fst cand) \<le> maxDistance_of word" by simp
  then have b: "int (edit_distance word (fst cand)) \<le> \<lceil>0.4 * real (length word)\<rceil>"
    by (simp only: within_budget)
  from e dd have e': "\<forall>earlier \<in> set before.
      edit_distance word (fst cand) < edit_distance word (fst earlier)"
    by (simp add: levenshteinDistance_edit_distance)
  from l dd have l': "\<forall>later \<in> set after.
      edit_distance word (fst cand) \<le> edit_distance word (fst later)"
    by (simp add: levenshteinDistance_edit_distance)
  from len s v b e' l' show ?thesis by blast
qed

lemma fuzzy_none:
  assumes "3 \<le> length word" and "findClosestWord word = None"
  shows "\<forall>cand \<in> set candidates.
           \<lceil>0.4 * real (length word)\<rceil> < int (edit_distance word (fst cand))"
proof -
  obtain md where "scanned word (maxDistance_of word) candidates (None, md)"
    using findClosestWord_scanned assms by metis
  then have "\<forall>cand \<in> set candidates.
      \<not> levenshteinDistance word (fst cand) \<le> maxDistance_of word"
    by (cases md) (auto simp: scanned_def)
  then show ?thesis
    by (simp only: within_budget) (simp add: not_le)
qed

text \<open>
  A word that is itself the key of a candidate is found at distance 0, so the fuzzy pass
  returns the correction of that key.
\<close>

lemma fuzzy_exact_key:
  assumes mem: "(word, v) \<in> set candidates"
    and uniq: "\<forall>cand \<in> set candidates. fst cand = word \<longrightarrow> snd cand = v"
    and len: "3 \<le> length word"
  shows "findClosestWord word = Some v"
proof (cases "findClosestWord word")
  case None
  from fuzzy_none [OF len None] mem
  have "\<lceil>0.4 * real (length word)\<rceil> < int (edit_distance word (fst (word, v)))"
    by blast
  moreover have "edit_distance word word = 0"
    by (simp only: edit_distance_zero_iff)
  moreover have "(0::int) \<le> \<lceil>0.4 * real (length word)\<rceil>"
    by simp
  ultimately show ?thesis by simp
next
  case (Some c)
  from fuzzy_result [OF Some] obtain before cand after where
    s: "candidates = before @ cand # after" and v: "snd cand = c"
    and e: "\<forall>earlier \<in> set before.
              edit_distance word (fst cand) < edit_distance word (fst earlier)"
    and l: "\<forall>later \<in> set after.
              edit_distance word (fst cand) \<le> edit_distance word (fst later)"
    by blast
  have z: "edit_distance word word = 0"
    by (simp only: edit_distance_zero_iff)
  have "set candidates = set before \<union> {cand} \<union> set after"
    by (simp add: s)
  with mem have "(word, v) \<in> set before \<or> (word, v) = cand \<or> (word, v) \<in> set after"
    by blast
  then have "edit_distance word (fst cand) = 0"
  proof (elim disjE)
    assume "(word, v) \<in> set before"
    with e have "edit_distance word (fst cand) < edit_distance word (fst (word, v))"
      by blast
    with z show ?thesis by simp
  next
    assume "(word, v) = cand"
    then have "fst cand = word" by auto
    with z show ?thesis by simp
  next
    assume "(word, v) \<in> set after"
    with l have "edit_distance word (fst cand) \<le> edit_distance word (fst (word, v))"
      by blast
    with z show ?thesis by simp
  qed
  then have "fst cand = word"
    by (simp only: edit_distance_zero_iff)
  moreover have "cand \<in> set candidates" by (simp add: s)
  ultimately have "snd cand = v" using uniq by blast
  with v Some show ?thesis by simp
qed

text \<open>
  \<open>freind\<close> is itself a key of the dictionary, and the only candidate with that key.
\<close>

lemma keys_freind:
  "filter (\<lambda>cand. fst cand = ''freind'') candidates = [(''freind'', ''friend'')]"
  by code_simp

lemma findClosestWord_freind: "findClosestWord ''freind'' = Some ''friend''"
proof (rule fuzzy_exact_key)
  have "(''freind'', ''friend'') \<in> set (filter (\<lambda>cand. fst cand = ''freind'') candidates)"
    by (simp only: keys_freind) simp
  then show "(''freind'', ''friend'') \<in> set candidates"
    by simp
  have "\<forall>cand \<in> set (filter (\<lambda>cand. fst cand = ''freind'') candidates). snd cand = ''friend''"
    by (simp only: keys_freind) simp
  then show "\<forall>cand \<in> set candidates. fst cand = ''freind'' \<longrightarrow> snd cand = ''friend''"
    by auto
  show "3 \<le> length ''freind''" by simp
qed

lemma autoCorrect_freind: "autoCorrect ''freind'' = JStr ''friend''"
  by (simp add: autoCorrect_def toLowerCase_def upper_letters_def lower_letters_def
      dict_get_def autoCorrectDict_def)

lemma edit_distance_freind: "edit_distance ''freind'' ''friend'' = 2"
proof -
  have "levenshteinDistance ''freind'' ''friend'' = 2" by code_simp
  then show ?thesis by (simp only: levenshteinDistance_edit_distance)
qed

text \<open>
  \<open>wat\<close> is no key of a candidate and is not changed by the earlier passes of
  \<open>autoCorrect\<close>. The scan holds \<open>what\<close> at distance 1 after the seventh key of the
  dictionary, \<open>waht\<close>, and nothing later is closer.
\<close>

lemma keys_wat: "filter (\<lambda>cand. fst cand = ''wat'') candidates = []"
  by code_simp

lemma first_seven_wat:
  "foldl (scan_step ''wat'' 2) (None, None) (take 7 candidates) = (Some ''what'', Some (Suc 0))"
  by code_simp

lemma findClosestWord_wat: "findClosestWord ''wat'' = Some ''what''"
proof -
  have m: "maxDistance_of ''wat'' = 2"
    by (simp add: maxDistance_of_def)
  have "\<forall>cand \<in> set candidates. fst cand \<noteq> ''wat''"
    using keys_wat by (simp only: filter_empty_conv)
  then have rest: "\<forall>cand \<in> set (drop 7 candidates). fst cand \<noteq> ''wat''"
    by (meson in_set_dropD)
  have "foldl (scan_step ''wat'' 2) (None, None) (take 7 candidates @ drop 7 candidates)
          = (Some ''what'', Some (Suc 0))"
    by (simp only: foldl_append first_seven_wat scan_one_fixed [OF rest])
  then have "foldl (scan_step ''wat'' 2) (None, None) candidates = (Some ''what'', Some (Suc 0))"
    by (simp only: append_take_drop_id)
  moreover have "3 \<le> length ''wat''" by simp
  ultimately show ?thesis
    by (simp only: findClosestWord_foldl m) simp
qed

lemma autoCorrect_wat: "autoCorrect ''wat'' = JStr ''what''"
proof -
  have l: "toLowerCase ''wat'' = ''wat''" by code_simp
  have d: "dict_get ''wat'' = None" by code_simp
  have c: "(''wat'' \<in> set commonWords) = False" by code_simp
  have s: "simpleCorrect ''wat'' = ''wat''" by code_simp
  show ?thesis
    by (simp only: autoCorrect_def Let_def l d c s findClosestWord_wat) simp
qed

lemma edit_distance_wat: "edit_distance ''wat'' ''waht'' = 1"
proof -
  have "levenshteinDistance ''wat'' ''waht'' = 1" by code_simp
  then show ?thesis by (simp only: levenshteinDistance_edit_distance)
qed

lemma candidates_split_waht:
  "candidates = take 6 candidates @ (''waht'', ''what'') # drop 7 candidates"
proof -
  have "candidates ! 6 = (''waht'', ''what'')" by code_simp
  moreover have "6 < length candidates" by code_simp
  ultimately show ?thesis
    using id_take_nth_drop [of 6 candidates] by simp
qed

text \<open>
  Claim C8. \<open>findClosestWord\<close>, the fuzzy pass, returns nothing for a word of fewer than
  three characters. A correction it returns is the correction of a candidate (a key of
  the dictionary with its correction, or a vocabulary word with itself) whose edit
  distance to the word, the least number of single-character substitutions, deletions
  and insertions, is at most \<open>\<lceil>0.4 \<times> length word\<rceil>\<close>, is smaller than that of every
  candidate scanned before it and not greater than that of any candidate scanned after
  it: the closest candidate wins, the first of them among equals. For a word of three
  or more characters it returns nothing only when every candidate is beyond that budget.
  For \<open>freind\<close> the fuzzy pass returns \<open>friend\<close>, as does \<open>autoCorrect\<close> (whose
  exact dictionary entry, tried first, gives the same word); the two words are at edit
  distance 2, within the budget 3.
\<close>

theorem fuzzy_pass:
  "(length word < 3 \<longrightarrow> findClosestWord word = None)
   \<and> (findClosestWord word = Some c \<longrightarrow>
        3 \<le> length word
        \<and> (\<exists>before cand after.
              candidates = before @ cand # after
              \<and> snd cand = c
              \<and> int (edit_distance word (fst cand)) \<le> \<lceil>0.4 * real (length word)\<rceil>
              \<and> (\<forall>earlier \<in> set before.
                    edit_distance word (fst cand) < edit_distance word (fst earlier))
              \<and> (\<forall>later \<in> set after.
                    edit_distance word (fst cand) \<le> edit_distance word (fst later))))
   \<and> (3 \<le> length word \<and> findClosestWord word = None \<longrightarrow>
        (\<forall>cand \<in> set candidates.
           \<lceil>0.4 * real (length word)\<rceil> < int (edit_distance word (fst cand))))
   \<and> findClosestWord ''freind'' = Some ''friend''
   \<and> autoCorrect ''freind'' = JStr ''friend''
   \<and> edit_distance ''freind'' ''friend'' = 2
   \<and> \<lceil>0.4 * real (length ''freind'')\<rceil> = 3"
proof -
  have short: "length word < 3 \<longrightarrow> findClosestWord word = None"
    by (simp add: findClosestWord_def)
  have some: "findClosestWord word = Some c \<longrightarrow>
        3 \<le> length word
        \<and> (\<exists>before cand after.
              candidates = before @ cand # after
              \<and> snd cand = c
              \<and> int (edit_distance word (fst cand)) \<le> \<lceil>0.4 * real (length word)\<rceil>
              \<and> (\<forall>earlier \<in> set before.
                    edit_distance word (fst cand) < edit_distance word (fst earlier))
              \<and> (\<forall>later \<in> set after.
                    edit_distance word (fst cand) \<le> edit_distance word (fst later)))"
    using fuzzy_result by blast
  have none: "3 \<le> length word \<and> findClosestWord word = None \<longrightarrow>
        (\<forall>cand \<in> set candidates.
           \<lceil>0.4 * real (length word)\<rceil> < int (edit_distance word (fst cand)))"
    using fuzzy_none by blast
  have budget: "\<lceil>0.4 * real (length ''freind'')\<rceil> = 3"
    by (simp only: maxDistance_of_ceiling [symmetric]) (simp add: maxDistance_of_def)
  from short some none findClosestWord_freind autoCorrect_freind edit_distance_freind budget
  show ?thesis by blast
qed

text \<open>
  The theorem at four words: \<open>hi\<close>, too short; \<open>wat\<close>, which no earlier pass of
  \<open>autoCorrect\<close> changes and which the fuzzy pass corrects to \<open>what\<close>, through the
  dictionary key \<open>waht\<close> at edit distance 1 (budget 2); \<open>zzq\<close>, from which every
  candidate is more than 2 edits away; and \<open>freind\<close>.
\<close>

theorem fuzzy_pass_witness:
  "length ''hi'' < 3 \<and> findClosestWord ''hi'' = None
   \<and> findClosestWord ''wat'' = Some ''what''
   \<and> autoCorrect ''wat'' = JStr ''what''
   \<and> candidates = take 6 candidates @ (''waht'', ''what'') # drop 7 candidates
   \<and> edit_distance ''wat'' ''waht'' = 1
   \<and> \<lceil>0.4 * real (length ''wat'')\<rceil> = 2
   \<and> (\<exists>before cand after.
         candidates = before @ cand # after
         \<and> snd cand = ''what''
         \<and> int (edit_distance ''wat'' (fst cand)) \<le> \<lceil>0.4 * real (length ''wat'')\<rceil>
         \<and> (\<forall>earlier \<in> set before.
               edit_distance ''wat'' (fst cand) < edit_distance ''wat'' (fst earlier))
         \<and> (\<forall>later \<in> set after.
               edit_distance ''wat'' (fst cand) \<le> edit_distance ''wat'' (fst later)))
   \<and> 3 \<le> length ''zzq'' \<and> findClosestWord ''zzq'' = None
   \<and> list_all (\<lambda>cand. \<lceil>0.4 * real (length ''zzq'')\<rceil>
                          < int (edit_distance ''zzq'' (fst cand))) candidates
   \<and> findClosestWord ''freind'' = Some ''friend''"
proof -
  have s: "length ''hi'' < 3" by simp
  from fuzzy_pass [of "''hi''"] s have n: "findClosestWord ''hi'' = None" by blast
  have budget: "\<lceil>0.4 * real (length ''wat'')\<rceil> = 2"
    by (simp only: maxDistance_of_ceiling [symmetric]) (simp add: maxDistance_of_def)
  from fuzzy_pass [of "''wat''" "''what''"] findClosestWord_wat
  have e: "\<exists>before cand after.
         candidates = before @ cand # after
         \<and> snd cand = ''what''
         \<and> int (edit_distance ''wat'' (fst cand)) \<le> \<lceil>0.4 * real (length ''wat'')\<rceil>
         \<and> (\<forall>earlier \<in> set before.
               edit_distance ''wat'' (fst cand) < edit_distance ''wat'' (fst earlier))
         \<and> (\<forall>later \<in> set after.
               edit_distance ''wat'' (fst cand) \<le> edit_distance ''wat'' (fst later))"
    by blast
  from fuzzy_pass [of "''wat''" "''what''"]
  have f: "findClosestWord ''freind'' = Some ''friend''" by blast
  have l: "3 \<le> length ''zzq''" by simp
  have z: "findClosestWord ''zzq'' = None" by code_simp
  from fuzzy_pass [of "''zzq''"] l z
  have "\<forall>cand \<in> set candidates.
          \<lceil>0.4 * real (length ''zzq'')\<rceil> < int (edit_distance ''zzq'' (fst cand))"
    by blast
  then have a: "list_all (\<lambda>cand. \<lceil>0.4 * real (length ''zzq'')\<rceil>
                          < int (edit_distance ''zzq'' (fst cand))) candidates"
    by (simp only: list_all_iff)
  from s n findClosestWord_wat autoCorrect_wat candidates_split_waht edit_distance_wat
    budget e l z a f
  show ?thesis by blast
qed

subsection \<open>setSentence\<close>

text \<open>
  Claim C10. For every string and every state of the builder, \<open>setSentence\<close> makes the
  sentence equal to the given string as it is, empties the word buffer, and leaves the
  last letter, its timestamp and the hold time as they were.
\<close>

theorem setSentence_effect:
  "sentence (setSentence newSentence s) = newSentence
   \<and> currentWord (setSentence newSentence s) = []
   \<and> lastLetter (setSentence newSentence s) = lastLetter s
   \<and> lastLetterTimestamp (setSentence newSentence s) = lastLetterTimestamp s
   \<and> letterHoldTime (setSentence newSentence s) = letterHoldTime s"
  by (simp add: setSentence_def)

end
